theory Spec2Isabelle
  imports Main "HOL-Library.Word"
begin

section \<open>Errors and cancellable contexts\<close>

text \<open>
  The graceful-shutdown server is written against Go's \<^verbatim>\<open>context\<close> package.  Every
  component owns a context made by \<^verbatim>\<open>context.WithCancel\<close> or
  \<^verbatim>\<open>context.WithCancelCause\<close>; a Future even stores its result as the \<^emph>\<open>cause\<close> of its
  context.  The error values that occur are collected in one datatype:
  \<^verbatim>\<open>errors.New\<close>/\<^verbatim>\<open>fmt.Errorf\<close> values carry their message, the two sentinel errors of
  package \<^verbatim>\<open>context\<close> are constructors, and \<^verbatim>\<open>*futureResult[R]\<close> (which implements
  \<^verbatim>\<open>error\<close>) carries a result and a possibly nil error.
\<close>

datatype 'r error =
    ErrorsNew string
  | Canceled
  | DeadlineExceeded
  | FutureResult 'r "'r error option"

definition ErrWorkerPoolShutdown :: "'r error" where
  "ErrWorkerPoolShutdown = ErrorsNew ''worker pool is shutdown''"

definition ErrTaskQueueFull :: "'r error" where
  "ErrTaskQueueFull = ErrorsNew ''task queue is full''"

text \<open>
  A context is a handle (an index) into a store of cancellation nodes.  A node remembers
  the context it was derived from, its \<^verbatim>\<open>Err()\<close> and its \<^verbatim>\<open>Cause\<close>; both are nil
  (\<open>None\<close>) until the node is cancelled.  A root context such as
  \<^verbatim>\<open>context.Background()\<close> has no parent.
\<close>

record 'r cancelCtx =
  parent :: "nat option"
  err :: "'r error option"
  cause :: "'r error option"

type_synonym 'r ctxs = "'r cancelCtx list"

definition Background :: "'r cancelCtx" where
  "Background = \<lparr>parent = None, err = None, cause = None\<rparr>"

definition Err :: "'r ctxs \<Rightarrow> nat \<Rightarrow> 'r error option" where
  "Err cs c = (if c < length cs then err (cs ! c) else None)"

definition Cause :: "'r ctxs \<Rightarrow> nat \<Rightarrow> 'r error option" where
  "Cause cs c = (if c < length cs then cause (cs ! c) else None)"

text \<open>\<^verbatim>\<open>ctx.Done()\<close> is closed, i.e. a receive from it can proceed, once \<^verbatim>\<open>Err()\<close> is not nil.\<close>

definition Done :: "'r ctxs \<Rightarrow> nat \<Rightarrow> bool" where
  "Done cs c = (Err cs c \<noteq> None)"

text \<open>
  Cancelling a context reaches the context itself and every context derived from it
  through contexts that are still live (a cancelled child has left its parent's list of
  children).  \<open>derived_from cs k c i\<close> walks at most \<open>k\<close> parent links up from \<open>i\<close>.
\<close>

fun derived_from :: "'r ctxs \<Rightarrow> nat \<Rightarrow> nat \<Rightarrow> nat \<Rightarrow> bool" where
  "derived_from cs 0 c i = (i = c)"
| "derived_from cs (Suc k) c i =
     (i = c \<or> (i < length cs \<and> err (cs ! i) = None \<and>
        (case parent (cs ! i) of None \<Rightarrow> False | Some p \<Rightarrow> derived_from cs k c p)))"

text \<open>
  The cancel function of a context: the first call records \<open>e\<close> as \<^verbatim>\<open>Err()\<close> and \<open>cz\<close>
  as the cause, in the context and in its live descendants; on a context that is already
  cancelled it returns at once (\<^verbatim>\<open>if c.err != nil { return }\<close> in package context).
\<close>

definition cancel :: "nat \<Rightarrow> 'r error \<Rightarrow> 'r error \<Rightarrow> 'r ctxs \<Rightarrow> 'r ctxs" where
  "cancel c e cz cs =
     (if c < length cs \<and> err (cs ! c) = None
      then map (\<lambda>i. if err (cs ! i) = None \<and> derived_from cs (length cs) c i
                     then (cs ! i)\<lparr>err := Some e, cause := Some cz\<rparr>
                     else cs ! i) [0..<length cs]
      else cs)"

text \<open>
  \<^verbatim>\<open>context.WithCancelCause(parent)\<close> (and \<^verbatim>\<open>context.WithCancel\<close>): a new node under
  \<open>p\<close>.  A child of a parent that is already cancelled is cancelled at birth, with the
  parent's error and cause.
\<close>

definition WithCancelCause :: "nat \<Rightarrow> 'r ctxs \<Rightarrow> nat \<times> 'r ctxs" where
  "WithCancelCause p cs =
     (length cs, cs @ [\<lparr>parent = Some p, err = Err cs p, cause = Cause cs p\<rparr>])"

section \<open>Future\<close>

text \<open>
  A task is a function of a context that returns a result and an error, or panics.  The
  model passes it the context store and its own context handle, so that a task can look at
  its context.
\<close>

datatype 'a outcome = Normal 'a | Panic string

type_synonym 'r Task = "'r ctxs \<Rightarrow> nat \<Rightarrow> ('r \<times> 'r error option) outcome"

text \<open>
  \<^verbatim>\<open>type Future[R] struct { ctx; task; callback }\<close>.  The callback closes over the
  cancel function of \<open>ctx\<close>, so it is a function of the Future here.
\<close>

record 'r Future =
  f_ctx :: nat
  task :: "'r Task"

definition NewFuture :: "nat \<Rightarrow> 'r Task \<Rightarrow> 'r ctxs \<Rightarrow> 'r Future \<times> 'r ctxs" where
  "NewFuture ctx t cs =
     (case WithCancelCause ctx cs of (c, cs') \<Rightarrow> (\<lparr>f_ctx = c, task = t\<rparr>, cs'))"

definition Future_callback ::
  "'r Future \<Rightarrow> 'r \<Rightarrow> 'r error option \<Rightarrow> 'r ctxs \<Rightarrow> 'r ctxs" where
  "Future_callback f result e cs = cancel (f_ctx f) Canceled (FutureResult result e) cs"

definition Future_IsDone :: "'r Future \<Rightarrow> 'r ctxs \<Rightarrow> bool" where
  "Future_IsDone f cs = (Err cs (f_ctx f) \<noteq> None)"

text \<open>
  \<^verbatim>\<open>invoke\<close> runs the task under a deferred \<^verbatim>\<open>recover()\<close>.  When the task panics with
  value \<open>v\<close>, the deferred function calls the callback with the zero value and the error
  \<^verbatim>\<open>fmt.Errorf("task panicked: %v", r)\<close>, and \<^verbatim>\<open>invoke\<close> returns the zero values of its
  unnamed results.  \<open>zero\<close> is Go's zero value of the type parameter \<open>R\<close>.
\<close>

definition Future_invoke ::
  "'r \<Rightarrow> 'r Future \<Rightarrow> 'r ctxs \<Rightarrow> (('r \<times> 'r error option) \<times> 'r ctxs) outcome" where
  "Future_invoke zero f cs =
     (case task f cs (f_ctx f) of
        Normal re \<Rightarrow> Normal (re, cs)
      | Panic v \<Rightarrow>
          Normal ((zero, None),
                  Future_callback f zero (Some (ErrorsNew (''task panicked: '' @ v))) cs))"

text \<open>\<^verbatim>\<open>Run\<close> has no recover of its own: a panic leaving \<^verbatim>\<open>invoke\<close> would leave \<^verbatim>\<open>Run\<close>.\<close>

definition Future_Run :: "'r \<Rightarrow> 'r Future \<Rightarrow> 'r ctxs \<Rightarrow> 'r ctxs outcome" where
  "Future_Run zero f cs =
     (if Future_IsDone f cs then Normal cs
      else case Future_invoke zero f cs of
             Panic v \<Rightarrow> Panic v
           | Normal ((result, e), cs') \<Rightarrow> Normal (Future_callback f result e cs'))"

text \<open>
  \<^verbatim>\<open>Get\<close> first receives from \<^verbatim>\<open>f.Done()\<close>: while the context is live the call blocks,
  which is the value \<open>None\<close>.  Afterwards the cause decides: a \<^verbatim>\<open>*futureResult\<close> is
  unpacked (\<^verbatim>\<open>errors.As\<close>; the type has no \<^verbatim>\<open>Unwrap\<close>, so only the cause itself is
  inspected), any other cause is returned as the error beside the zero value.
\<close>

definition Future_Get :: "'r \<Rightarrow> 'r Future \<Rightarrow> 'r ctxs \<Rightarrow> ('r \<times> 'r error option) option" where
  "Future_Get zero f cs =
     (if \<not> Done cs (f_ctx f) then None
      else case Cause cs (f_ctx f) of
             Some (FutureResult result e) \<Rightarrow> Some (result, e)
           | Some c \<Rightarrow> Some (zero, Some c)
           | None \<Rightarrow> Some (zero, None))"

definition Future_Cancel :: "'r \<Rightarrow> 'r Future \<Rightarrow> 'r ctxs \<Rightarrow> 'r ctxs" where
  "Future_Cancel zero f cs = Future_callback f zero (Some Canceled) cs"

text \<open>
  A caller's calls on one Future, in sequence: each is \<^verbatim>\<open>Run()\<close> or \<^verbatim>\<open>Cancel()\<close>.
\<close>

datatype call = CallRun | CallCancel

definition Future_call :: "'r \<Rightarrow> 'r Future \<Rightarrow> call \<Rightarrow> 'r ctxs \<Rightarrow> 'r ctxs outcome" where
  "Future_call zero f a cs =
     (case a of CallRun \<Rightarrow> Future_Run zero f cs
              | CallCancel \<Rightarrow> Normal (Future_Cancel zero f cs))"

fun Future_calls :: "'r \<Rightarrow> 'r Future \<Rightarrow> call list \<Rightarrow> 'r ctxs \<Rightarrow> 'r ctxs outcome" where
  "Future_calls zero f [] cs = Normal cs"
| "Future_calls zero f (a # as) cs =
     (case Future_call zero f a cs of
        Panic v \<Rightarrow> Panic v
      | Normal cs' \<Rightarrow> Future_calls zero f as cs')"

section \<open>Channels and select\<close>

text \<open>
  A buffered channel \<^verbatim>\<open>make(chan T, cap)\<close>: the buffered values in order of arrival, the
  capacity, and whether \<^verbatim>\<open>close\<close> was called.  In this program every receive that can wait
  sits in a \<^verbatim>\<open>select\<close>, and every send is non-blocking or waits for buffer space, so a
  send can proceed exactly when the buffer has room.
\<close>

record 'a chan =
  buf :: "'a list"
  cap :: nat
  closed :: bool

definition make_chan :: "nat \<Rightarrow> 'a chan" where
  "make_chan n = \<lparr>buf = [], cap = n, closed = False\<rparr>"

definition can_send :: "'a chan \<Rightarrow> bool" where
  "can_send ch = (length (buf ch) < cap ch)"

definition send :: "'a chan \<Rightarrow> 'a \<Rightarrow> 'a chan" where
  "send ch x = ch\<lparr>buf := buf ch @ [x]\<rparr>"

text \<open>
  A receive can proceed when a value is buffered or the channel is closed; from a closed,
  empty channel it yields the zero value of the element type.
\<close>

definition can_recv :: "'a chan \<Rightarrow> bool" where
  "can_recv ch = (buf ch \<noteq> [] \<or> closed ch)"

definition recv :: "'a \<Rightarrow> 'a chan \<Rightarrow> 'a \<times> 'a chan" where
  "recv zero ch = (case buf ch of [] \<Rightarrow> (zero, ch) | x # xs \<Rightarrow> (x, ch\<lparr>buf := xs\<rparr>))"

text \<open>
  \<^verbatim>\<open>select\<close> over the cases that can proceed, listed in source order: with none ready the
  statement blocks (\<open>None\<close>) unless it has a \<^verbatim>\<open>default\<close>; with several ready the Go
  runtime picks one at random, which the extra argument \<open>k\<close> stands for.
\<close>

definition select :: "'a list \<Rightarrow> nat \<Rightarrow> 'a option" where
  "select ready k = (if ready = [] then None else Some (ready ! (k mod length ready)))"

text \<open>
  Several \<^verbatim>\<open>select\<close> statements of the program have the same two cases: a receive from
  \<^verbatim>\<open>ctx.Done()\<close> and one operation on a channel.
\<close>

datatype select_case = CaseCtxDone | CaseChan

section \<open>WorkerPool\<close>

record 'r workerPool =
  wp_ctx :: nat
  wp_size :: "64 word"
  taskQueue :: "'r Future chan"

text \<open>
  The loop \<^verbatim>\<open>for i := 0; i < size; i++ { go wp.worker() }\<close>, counting the goroutines it
  starts.  \<^verbatim>\<open>int\<close> is a signed 64-bit integer.
\<close>

function spawn_workers :: "64 word \<Rightarrow> 64 word \<Rightarrow> nat \<Rightarrow> nat" where
  "spawn_workers i size0 n = (if i <s size0 then spawn_workers (i + 1) size0 (Suc n) else n)"
  by pat_completeness auto

lemma sint_succ:
  assumes "(i::64 word) <s n"
  shows "sint (i + 1) = sint i + 1"
proof -
  have lt: "sint i < sint n" using assms by (simp add: word_sless_alt)
  have "sint n < 2 ^ 63" using sint_lt [of n] by simp
  moreover have "- (2 ^ 63) \<le> sint i" using sint_ge [of i] by simp
  ultimately have "signed_take_bit 63 (sint i + 1) = sint i + 1"
    using lt by (intro signed_take_bit_int_eq_self) simp_all
  then show ?thesis by (simp add: sint_word_add)
qed

termination spawn_workers
  by (relation "measure (\<lambda>(i, n, k). nat (sint n - sint i))")
     (auto simp: sint_succ word_sless_alt)

declare spawn_workers.simps [simp del]

text \<open>
  \<^verbatim>\<open>NewWorkerPool\<close>.  The product \<^verbatim>\<open>size*2\<close> wraps around in 64 bits, and
  \<^verbatim>\<open>make(chan T, n)\<close> panics for a negative \<open>n\<close>.  The result is the pool, the number of
  worker goroutines started, and the context store.
\<close>

definition NewWorkerPool ::
  "nat \<Rightarrow> 64 word \<Rightarrow> 'r ctxs \<Rightarrow> ('r workerPool \<times> nat \<times> 'r ctxs) outcome" where
  "NewWorkerPool ctx size0 cs =
     (let size1 = (if size0 \<le>s 0 then 1 else size0) in
      case WithCancelCause ctx cs of (poolCtx, cs') \<Rightarrow>
        if size1 * 2 <s 0 then Panic ''makechan: size out of range''
        else Normal (\<lparr>wp_ctx = poolCtx, wp_size = size1,
                       taskQueue = make_chan (unat (size1 * 2))\<rparr>,
                     spawn_workers 0 size1 0, cs'))"

definition workerPool_IsShutdown :: "'r workerPool \<Rightarrow> 'r ctxs \<Rightarrow> bool" where
  "workerPool_IsShutdown wp cs = (Err cs (wp_ctx wp) \<noteq> None)"

text \<open>
  \<^verbatim>\<open>Submit\<close>: on a pool that is shut down, a new Future around a task that returns
  \<^verbatim>\<open>ErrWorkerPoolShutdown\<close>; otherwise a Future for the task, sent to the queue when
  the buffer has room, and with a full buffer (the \<^verbatim>\<open>default\<close> case) a new Future around a
  task that returns \<^verbatim>\<open>ErrTaskQueueFull\<close>.  Every Future derives its context from the
  caller's \<open>ctx\<close>.
\<close>

definition workerPool_Submit ::
  "'r \<Rightarrow> 'r workerPool \<Rightarrow> nat \<Rightarrow> 'r Task \<Rightarrow> 'r ctxs \<Rightarrow> 'r Future \<times> 'r workerPool \<times> 'r ctxs" where
  "workerPool_Submit zero wp ctx t cs =
     (if workerPool_IsShutdown wp cs
      then (case NewFuture ctx (\<lambda>_ _. Normal (zero, Some ErrWorkerPoolShutdown)) cs of
              (f, cs') \<Rightarrow> (f, wp, cs'))
      else (case NewFuture ctx t cs of
              (future, cs') \<Rightarrow>
                if can_send (taskQueue wp)
                then (future, wp\<lparr>taskQueue := send (taskQueue wp) future\<rparr>, cs')
                else (case NewFuture ctx (\<lambda>_ _. Normal (zero, Some ErrTaskQueueFull)) cs' of
                        (f, cs'') \<Rightarrow> (f, wp, cs''))))"

text \<open>
  \<^verbatim>\<open>Shutdown\<close> cancels the pool's context with cause \<^verbatim>\<open>ErrWorkerPoolShutdown\<close> unless
  it is cancelled already, and then waits for the workers (\<^verbatim>\<open>workerWaitGroup.Wait()\<close>);
  the wait changes no state.
\<close>

definition workerPool_Shutdown :: "'r workerPool \<Rightarrow> 'r ctxs \<Rightarrow> 'r ctxs" where
  "workerPool_Shutdown wp cs =
     (if workerPool_IsShutdown wp cs then cs
      else cancel (wp_ctx wp) Canceled ErrWorkerPoolShutdown cs)"

text \<open>
  The worker goroutine, statement by statement.  Every iteration starts with the guard
  \<^verbatim>\<open>if wp.IsShutdown() { return }\<close>; then comes the \<^verbatim>\<open>select\<close> with its two cases, in
  source order a receive from \<^verbatim>\<open>wp.taskQueue\<close> and a receive from \<^verbatim>\<open>wp.ctx.Done()\<close>; a
  Future that was received is run by \<^verbatim>\<open>future.Run()\<close>.  The goroutine ends by returning,
  or it would die of a panic that left \<^verbatim>\<open>Run\<close>.  The queue is never closed.  (The wait
  group that \<^verbatim>\<open>Shutdown\<close> waits for changes nothing a worker does and is left out.)
\<close>

datatype 'r worker_pc =
    Worker_IsShutdown
  | Worker_select
  | Worker_Run "'r Future"
  | Worker_returned
  | Worker_crashed string

definition worker_ready :: "'r workerPool \<Rightarrow> 'r ctxs \<Rightarrow> select_case list" where
  "worker_ready wp cs =
     (if buf (taskQueue wp) \<noteq> [] then [CaseChan] else []) @
     (if Done cs (wp_ctx wp) then [CaseCtxDone] else [])"

text \<open>
  One step of a worker; \<open>None\<close> means that it cannot move (it blocks in the
  \<^verbatim>\<open>select\<close>, or it has ended).  \<open>k\<close> is the runtime's pick in the \<^verbatim>\<open>select\<close>.
\<close>

definition workerPool_worker ::
  "nat \<Rightarrow> 'r \<Rightarrow> 'r worker_pc \<Rightarrow> 'r workerPool \<Rightarrow> 'r ctxs \<Rightarrow>
   ('r worker_pc \<times> 'r workerPool \<times> 'r ctxs) option" where
  "workerPool_worker k zero p wp cs =
     (case p of
        Worker_IsShutdown \<Rightarrow>
          Some (if workerPool_IsShutdown wp cs then Worker_returned else Worker_select, wp, cs)
      | Worker_select \<Rightarrow>
          (case select (worker_ready wp cs) k of
             None \<Rightarrow> None
           | Some CaseChan \<Rightarrow>
               (case buf (taskQueue wp) of
                  [] \<Rightarrow> None
                | future # q \<Rightarrow>
                    Some (Worker_Run future, wp\<lparr>taskQueue := (taskQueue wp)\<lparr>buf := q\<rparr>\<rparr>, cs))
           | Some CaseCtxDone \<Rightarrow> Some (Worker_returned, wp, cs))
      | Worker_Run future \<Rightarrow>
          (case Future_Run zero future cs of
             Panic v \<Rightarrow> Some (Worker_crashed v, wp, cs)
           | Normal cs' \<Rightarrow> Some (Worker_IsShutdown, wp, cs'))
      | Worker_returned \<Rightarrow> None
      | Worker_crashed v \<Rightarrow> None)"

text \<open>
  The pool with its workers, and what happens to it: a caller submits a task, someone
  calls \<^verbatim>\<open>Shutdown\<close>, a worker is scheduled and takes a step, or a context is cancelled
  from outside.
\<close>

record 'r pool_system =
  ps_pool :: "'r workerPool"
  ps_workers :: "'r worker_pc list"
  ps_ctxs :: "'r ctxs"

datatype 'r pool_event =
    Submit_called nat "'r Task"
  | Shutdown_called
  | Worker_steps nat nat
  | Ctx_cancelled nat

definition pool_event :: "'r \<Rightarrow> 'r pool_event \<Rightarrow> 'r pool_system \<Rightarrow> 'r pool_system" where
  "pool_event zero ev s =
     (case ev of
        Submit_called ctx t \<Rightarrow>
          (case workerPool_Submit zero (ps_pool s) ctx t (ps_ctxs s) of
             (f, wp', cs') \<Rightarrow> s\<lparr>ps_pool := wp', ps_ctxs := cs'\<rparr>)
      | Shutdown_called \<Rightarrow> s\<lparr>ps_ctxs := workerPool_Shutdown (ps_pool s) (ps_ctxs s)\<rparr>
      | Worker_steps i k \<Rightarrow>
          (if i < length (ps_workers s)
           then (case workerPool_worker k zero (ps_workers s ! i) (ps_pool s) (ps_ctxs s) of
                   None \<Rightarrow> s
                 | Some (p', wp', cs') \<Rightarrow>
                     \<lparr>ps_pool = wp', ps_workers = (ps_workers s)[i := p'], ps_ctxs = cs'\<rparr>)
           else s)
      | Ctx_cancelled c \<Rightarrow> s\<lparr>ps_ctxs := cancel c Canceled Canceled (ps_ctxs s)\<rparr>)"

definition pool_run :: "'r \<Rightarrow> 'r pool_event list \<Rightarrow> 'r pool_system \<Rightarrow> 'r pool_system" where
  "pool_run zero evs s = fold (pool_event zero) evs s"

text \<open>The pool as \<^verbatim>\<open>NewWorkerPool\<close> leaves it: \<open>n\<close> workers, each before its first guard.\<close>

definition pool_start :: "'r workerPool \<Rightarrow> nat \<Rightarrow> 'r ctxs \<Rightarrow> 'r pool_system" where
  "pool_start wp n cs = \<lparr>ps_pool = wp, ps_workers = replicate n Worker_IsShutdown, ps_ctxs = cs\<rparr>"

section \<open>The periodic cache refresher\<close>

text \<open>
  \<^verbatim>\<open>type cache struct { ctx; cancel; refreshInterval }\<close>.  \<^verbatim>\<open>NewCache\<close> derives the
  context and starts the goroutine \<^verbatim>\<open>pooling\<close>.  The state of that goroutine: where it
  stands, how often it has called \<^verbatim>\<open>refresh()\<close>, and the channel \<^verbatim>\<open>ticker.C\<close>, which has
  a buffer of one (the runtime drops a tick that finds the buffer full).  The interval is
  a \<^verbatim>\<open>time.Duration\<close>, a signed 64-bit count of nanoseconds.
\<close>

record cache =
  c_ctx :: nat
  refreshInterval :: "64 word"

datatype pooling_pc = Started | Ticking | Returned | Ticker_panicked

record pooling_state =
  pc :: pooling_pc
  refreshes :: nat
  ticker_C :: "unit chan"

definition NewCache :: "nat \<Rightarrow> 64 word \<Rightarrow> 'r ctxs \<Rightarrow> cache \<times> pooling_state \<times> 'r ctxs" where
  "NewCache parentCtx interval cs =
     (case WithCancelCause parentCtx cs of
        (ctx, cs') \<Rightarrow>
          (\<lparr>c_ctx = ctx, refreshInterval = interval\<rparr>,
           \<lparr>pc = Started, refreshes = 0, ticker_C = make_chan 1\<rparr>, cs'))"

definition cache_Shutdown :: "cache \<Rightarrow> 'r ctxs \<Rightarrow> 'r ctxs" where
  "cache_Shutdown c cs = cancel (c_ctx c) Canceled Canceled cs"

definition refresh :: "pooling_state \<Rightarrow> pooling_state" where
  "refresh g = g\<lparr>refreshes := Suc (refreshes g)\<rparr>"

text \<open>The two cases of the \<^verbatim>\<open>select\<close> in \<^verbatim>\<open>pooling\<close>, in source order.\<close>

datatype pooling_case = CaseTick | CaseDone

definition pooling_ready :: "cache \<Rightarrow> pooling_state \<Rightarrow> 'r ctxs \<Rightarrow> pooling_case list" where
  "pooling_ready c g cs =
     (if buf (ticker_C g) \<noteq> [] then [CaseTick] else []) @
     (if Done cs (c_ctx c) then [CaseDone] else [])"

text \<open>
  One step of the goroutine.  From \<open>Started\<close>: the first \<^verbatim>\<open>c.refresh()\<close> and then
  \<^verbatim>\<open>time.NewTicker(c.refreshInterval)\<close>, which panics for an interval that is not
  positive; nothing recovers that panic.  From \<open>Ticking\<close>: one \<^verbatim>\<open>select\<close>, where
  \<open>None\<close> means that it blocks; the tick case receives the tick and calls
  \<^verbatim>\<open>c.refresh()\<close>, the other returns.
\<close>

definition pooling :: "nat \<Rightarrow> cache \<Rightarrow> pooling_state \<Rightarrow> 'r ctxs \<Rightarrow> pooling_state option" where
  "pooling k c g cs =
     (case pc g of
        Started \<Rightarrow>
          Some ((refresh g)\<lparr>pc := (if refreshInterval c \<le>s 0 then Ticker_panicked else Ticking)\<rparr>)
      | Ticking \<Rightarrow>
          (case select (pooling_ready c g cs) k of
             None \<Rightarrow> None
           | Some CaseTick \<Rightarrow> Some (refresh (g\<lparr>ticker_C := (ticker_C g)\<lparr>buf := tl (buf (ticker_C g))\<rparr>\<rparr>))
           | Some CaseDone \<Rightarrow> Some (g\<lparr>pc := Returned\<rparr>))
      | Returned \<Rightarrow> None
      | Ticker_panicked \<Rightarrow> None)"

text \<open>
  What happens around the goroutine: the ticker fires (once it exists and until the
  deferred \<^verbatim>\<open>ticker.Stop()\<close>), a context is cancelled (\<^verbatim>\<open>Shutdown\<close>, or the parent's
  cancellation), or the goroutine is scheduled and takes a step, with \<open>k\<close> the runtime's
  pick in the \<^verbatim>\<open>select\<close>.
\<close>

datatype cache_event = TickFires | CancelCtx nat | Step nat

definition cache_event ::
  "cache \<Rightarrow> cache_event \<Rightarrow> pooling_state \<times> 'r ctxs \<Rightarrow> pooling_state \<times> 'r ctxs" where
  "cache_event c ev s =
     (case s of (g, cs) \<Rightarrow>
        (case ev of
           TickFires \<Rightarrow>
             (if pc g = Ticking \<and> can_send (ticker_C g)
              then g\<lparr>ticker_C := send (ticker_C g) ()\<rparr> else g, cs)
         | CancelCtx x \<Rightarrow> (g, cancel x Canceled Canceled cs)
         | Step k \<Rightarrow> (case pooling k c g cs of None \<Rightarrow> (g, cs) | Some g' \<Rightarrow> (g', cs))))"

definition cache_run ::
  "cache \<Rightarrow> cache_event list \<Rightarrow> pooling_state \<times> 'r ctxs \<Rightarrow> pooling_state \<times> 'r ctxs" where
  "cache_run c evs s = fold (cache_event c) evs s"

section \<open>Application\<close>

text \<open>
  \<^verbatim>\<open>InitApplication\<close> and \<^verbatim>\<open>Application.Shutdown\<close> are sequences of constructor and
  \<^verbatim>\<open>Shutdown\<close> calls on the components.  The model records each call in a log, in the
  order of the statements.  A field of the struct is \<open>None\<close> when it is nil.
\<close>

datatype component = Database | Cache | WorkerPool | Controller | HttpServer

datatype lifecycle = New component | Shutdown component

record Application =
  httpServer :: "component option"
  pool :: "component option"
  cache :: "component option"
  db :: "component option"

definition InitApplication :: "string \<Rightarrow> string \<Rightarrow> lifecycle list \<Rightarrow> Application \<times> lifecycle list" where
  "InitApplication srvAddr dbAddr log =
     (let log1 = log @ [New Database];
          log2 = log1 @ [New Cache];
          log3 = log2 @ [New WorkerPool];
          log4 = log3 @ [New Controller];
          log5 = log4 @ [New HttpServer]
      in (\<lparr>httpServer = Some HttpServer, pool = Some WorkerPool, cache = Some Cache,
            db = Some Database\<rparr>, log5))"

text \<open>
  \<^verbatim>\<open>app.httpServer.Shutdown(ctx)\<close> is called without a nil check and dereferences its
  receiver; the three other calls are guarded by \<^verbatim>\<open>!= nil\<close>.
\<close>

definition Application_Shutdown :: "Application \<Rightarrow> lifecycle list \<Rightarrow> lifecycle list outcome" where
  "Application_Shutdown app log =
     (case httpServer app of
        None \<Rightarrow> Panic ''invalid memory address or nil pointer dereference''
      | Some h \<Rightarrow>
          (let log1 = log @ [Shutdown h];
               log2 = (case pool app of None \<Rightarrow> log1 | Some p \<Rightarrow> log1 @ [Shutdown p]);
               log3 = (case cache app of None \<Rightarrow> log2 | Some c \<Rightarrow> log2 @ [Shutdown c]);
               log4 = (case db app of None \<Rightarrow> log3 | Some d \<Rightarrow> log3 @ [Shutdown d])
           in Normal log4))"

text \<open>The components a log constructs, and those it shuts down, in order.\<close>

fun constructed :: "lifecycle list \<Rightarrow> component list" where
  "constructed [] = []"
| "constructed (New c # l) = c # constructed l"
| "constructed (Shutdown c # l) = constructed l"

fun torn_down :: "lifecycle list \<Rightarrow> component list" where
  "torn_down [] = []"
| "torn_down (New c # l) = torn_down l"
| "torn_down (Shutdown c # l) = c # torn_down l"

section \<open>ConnPool\<close>

text \<open>
  A \<^verbatim>\<open>net.Conn\<close> is known by the number of the factory call that made it; \<open>NilConn\<close> is
  the nil interface value, which a receive from a closed, empty channel yields.
\<close>

datatype conn = NilConn | Conn nat

text \<open>
  \<^verbatim>\<open>type ConnPool struct { ctx; cancel; wg; factory; idleCons; sema }\<close>.  The wait group
  is its counter.  The factory belongs to the environment: each call either makes a new
  connection or fails.
\<close>

record ConnPool =
  cp_ctx :: nat
  wg :: nat
  idleCons :: "conn chan"
  sema :: "unit chan"

definition NewPool :: "nat \<Rightarrow> int \<Rightarrow> 'r ctxs \<Rightarrow> (ConnPool \<times> 'r ctxs) outcome" where
  "NewPool ctx capacity cs =
     (case WithCancelCause ctx cs of
        (ctx', cs') \<Rightarrow>
          if capacity < 0 then Panic ''makechan: size out of range''
          else Normal (\<lparr>cp_ctx = ctx', wg = 0, idleCons = make_chan (nat capacity),
                         sema = make_chan (nat capacity)\<rparr>, cs'))"

definition ConnPool_IsShutdown :: "ConnPool \<Rightarrow> 'r ctxs \<Rightarrow> bool" where
  "ConnPool_IsShutdown cp cs = (Err cs (cp_ctx cp) \<noteq> None)"

text \<open>
  Many goroutines call \<^verbatim>\<open>Execute\<close> and \<^verbatim>\<open>Shutdown\<close> at once, so the pool is modelled
  as a transition system: a goroutine is a program counter into the method it runs, and a
  step is one statement that touches shared state.  What \<^verbatim>\<open>Execute\<close> will return is
  carried along from the point where it is decided to the end of the deferred calls.
\<close>

type_synonym 'r result = "'r error option outcome"

datatype 'r exec_pc =
    Execute_IsShutdown
  | Execute_select
  | Execute_wgAdd
  | Get_IsShutdown
  | Get_select
  | Get_factory
  | Execute_fn conn
  | Put_IsShutdown conn "'r result"
  | Put_select conn "'r result"
  | Execute_wgDone "'r result"
  | Execute_release "'r result"
  | Execute_returned "'r result"

datatype shutdown_pc =
    Shutdown_IsShutdown
  | Shutdown_cancel
  | Shutdown_wgWait
  | Shutdown_close
  | Shutdown_range
  | Shutdown_returned "unit outcome"

text \<open>
  \<^verbatim>\<open>Get\<close> and \<^verbatim>\<open>Put\<close> are exported, so a goroutine can also call them directly,
  without \<^verbatim>\<open>Execute\<close> around them and so without a slot of the semaphore.  \<^verbatim>\<open>Get\<close>
  returns a connection and an error, \<^verbatim>\<open>Put\<close> returns nothing or panics.
\<close>

datatype 'r get_pc =
    Direct_Get_IsShutdown
  | Direct_Get_select
  | Direct_Get_factory
  | Direct_Get_returned conn "'r error option"

datatype put_pc =
    Direct_Put_IsShutdown
  | Direct_Put_select
  | Direct_Put_returned "unit outcome"

text \<open>
  A goroutine in \<^verbatim>\<open>Execute(ctx, fn)\<close> with its caller's context, in \<^verbatim>\<open>Shutdown()\<close>, in a
  direct \<^verbatim>\<open>Get(ctx)\<close>, or in a direct \<^verbatim>\<open>Put(conn)\<close>.
\<close>

datatype 'r goroutine =
    InExecute nat "'r exec_pc"
  | InShutdown shutdown_pc
  | InGet nat "'r get_pc"
  | InPut conn put_pc

text \<open>
  The shared state: the contexts, the pool, the number of connections the factory has
  made, and the connections that were closed.
\<close>

record 'r world =
  ctxs :: "'r ctxs"
  cpool :: ConnPool
  dialed :: nat
  closedConns :: "conn list"

text \<open>
  What the environment decides in a step: the runtime's pick in a \<^verbatim>\<open>select\<close>, whether
  the factory fails (and with which error), and how \<^verbatim>\<open>fn(conn)\<close> ends.
\<close>

record 'r env =
  pick :: nat
  factory_err :: "'r error option"
  fn_result :: "'r result"

text \<open>
  The cases that can proceed in the \<^verbatim>\<open>select\<close> of \<^verbatim>\<open>Execute\<close> (a receive from
  \<^verbatim>\<open>ctx.Done()\<close>, a send to \<^verbatim>\<open>cp.sema\<close>) and in the \<^verbatim>\<open>select\<close> of \<^verbatim>\<open>Get\<close> (a receive
  from \<^verbatim>\<open>ctx.Done()\<close>, a receive from \<^verbatim>\<open>cp.idleCons\<close>).  The pool's own context is in
  neither.
\<close>

definition Execute_ready :: "'r world \<Rightarrow> nat \<Rightarrow> select_case list" where
  "Execute_ready w ctx =
     (if Done (ctxs w) ctx then [CaseCtxDone] else []) @
     (if can_send (sema (cpool w)) then [CaseChan] else [])"

definition Get_ready :: "'r world \<Rightarrow> nat \<Rightarrow> select_case list" where
  "Get_ready w ctx =
     (if Done (ctxs w) ctx then [CaseCtxDone] else []) @
     (if can_recv (idleCons (cpool w)) then [CaseChan] else [])"

definition already_shutdown :: "'r error" where
  "already_shutdown = ErrorsNew ''already shutdown''"

text \<open>\<^verbatim>\<open>conn.Close()\<close>: a method call on the nil interface value panics.\<close>

definition conn_Close :: "conn \<Rightarrow> 'r world \<Rightarrow> 'r world outcome" where
  "conn_Close c w =
     (case c of
        NilConn \<Rightarrow> Panic ''invalid memory address or nil pointer dereference''
      | Conn n \<Rightarrow> Normal (w\<lparr>closedConns := closedConns w @ [c]\<rparr>))"

text \<open>
  A deferred call that panics replaces what the function was about to return; the
  remaining deferred calls still run.
\<close>

definition after_Close :: "conn \<Rightarrow> 'r result \<Rightarrow> 'r world \<Rightarrow> 'r world \<times> 'r result" where
  "after_Close c r w = (case conn_Close c w of Panic v \<Rightarrow> (w, Panic v) | Normal w' \<Rightarrow> (w', r))"

text \<open>
  One step of a goroutine; \<open>None\<close> means that it cannot move (it blocks, or it has
  returned).  The equations follow the statements of \<^verbatim>\<open>Execute\<close>, \<^verbatim>\<open>Get\<close>, \<^verbatim>\<open>Put\<close> and
  \<^verbatim>\<open>Shutdown\<close>; the deferred calls of \<^verbatim>\<open>Execute\<close> run in reverse order of their
  \<^verbatim>\<open>defer\<close> statements: \<^verbatim>\<open>cp.Put(conn)\<close>, \<^verbatim>\<open>cp.wg.Done()\<close>, \<^verbatim>\<open><-cp.sema\<close>.
\<close>

fun goroutine_step ::
  "'r env \<Rightarrow> 'r world \<Rightarrow> 'r goroutine \<Rightarrow> ('r world \<times> 'r goroutine) option" where
  "goroutine_step ev w (InExecute ctx Execute_IsShutdown) =
     Some (w, InExecute ctx
       (if ConnPool_IsShutdown (cpool w) (ctxs w)
        then Execute_returned (Normal (Some already_shutdown))
        else Execute_select))"
| "goroutine_step ev w (InExecute ctx Execute_select) =
     (case select (Execute_ready w ctx) (pick ev) of
        None \<Rightarrow> None
      | Some CaseCtxDone \<Rightarrow> Some (w, InExecute ctx (Execute_returned (Normal (Err (ctxs w) ctx))))
      | Some CaseChan \<Rightarrow>
          Some (w\<lparr>cpool := (cpool w)\<lparr>sema := send (sema (cpool w)) ()\<rparr>\<rparr>,
                InExecute ctx Execute_wgAdd))"
| "goroutine_step ev w (InExecute ctx Execute_wgAdd) =
     Some (w\<lparr>cpool := (cpool w)\<lparr>wg := Suc (wg (cpool w))\<rparr>\<rparr>, InExecute ctx Get_IsShutdown)"
| "goroutine_step ev w (InExecute ctx Get_IsShutdown) =
     Some (w, InExecute ctx
       (if ConnPool_IsShutdown (cpool w) (ctxs w)
        then Execute_wgDone (Normal (Some already_shutdown))
        else Get_select))"
| "goroutine_step ev w (InExecute ctx Get_select) =
     (case select (Get_ready w ctx) (pick ev) of
        None \<Rightarrow> Some (w, InExecute ctx Get_factory)
      | Some CaseCtxDone \<Rightarrow> Some (w, InExecute ctx (Execute_wgDone (Normal (Err (ctxs w) ctx))))
      | Some CaseChan \<Rightarrow>
          (case recv NilConn (idleCons (cpool w)) of
             (c, ch) \<Rightarrow> Some (w\<lparr>cpool := (cpool w)\<lparr>idleCons := ch\<rparr>\<rparr>, InExecute ctx (Execute_fn c))))"
| "goroutine_step ev w (InExecute ctx Get_factory) =
     (case factory_err ev of
        Some e \<Rightarrow> Some (w, InExecute ctx (Execute_wgDone (Normal (Some e))))
      | None \<Rightarrow> Some (w\<lparr>dialed := Suc (dialed w)\<rparr>, InExecute ctx (Execute_fn (Conn (dialed w)))))"
| "goroutine_step ev w (InExecute ctx (Execute_fn c)) =
     Some (w, InExecute ctx (Put_IsShutdown c (fn_result ev)))"
| "goroutine_step ev w (InExecute ctx (Put_IsShutdown c r)) =
     (if ConnPool_IsShutdown (cpool w) (ctxs w)
      then (case after_Close c r w of (w', r') \<Rightarrow> Some (w', InExecute ctx (Execute_wgDone r')))
      else Some (w, InExecute ctx (Put_select c r)))"
| "goroutine_step ev w (InExecute ctx (Put_select c r)) =
     (if closed (idleCons (cpool w))
      then Some (w, InExecute ctx (Execute_wgDone (Panic ''send on closed channel'')))
      else if can_send (idleCons (cpool w))
      then Some (w\<lparr>cpool := (cpool w)\<lparr>idleCons := send (idleCons (cpool w)) c\<rparr>\<rparr>,
                 InExecute ctx (Execute_wgDone r))
      else (case after_Close c r w of (w', r') \<Rightarrow> Some (w', InExecute ctx (Execute_wgDone r'))))"
| "goroutine_step ev w (InExecute ctx (Execute_wgDone r)) =
     Some (w\<lparr>cpool := (cpool w)\<lparr>wg := wg (cpool w) - 1\<rparr>\<rparr>, InExecute ctx (Execute_release r))"
| "goroutine_step ev w (InExecute ctx (Execute_release r)) =
     Some (w\<lparr>cpool := (cpool w)\<lparr>sema := snd (recv () (sema (cpool w)))\<rparr>\<rparr>,
           InExecute ctx (Execute_returned r))"
| "goroutine_step ev w (InExecute ctx (Execute_returned r)) = None"
| "goroutine_step ev w (InShutdown Shutdown_IsShutdown) =
     Some (w, InShutdown
       (if ConnPool_IsShutdown (cpool w) (ctxs w) then Shutdown_returned (Normal ())
        else Shutdown_cancel))"
| "goroutine_step ev w (InShutdown Shutdown_cancel) =
     Some (w\<lparr>ctxs := cancel (cp_ctx (cpool w)) Canceled Canceled (ctxs w)\<rparr>,
           InShutdown Shutdown_wgWait)"
| "goroutine_step ev w (InShutdown Shutdown_wgWait) =
     (if wg (cpool w) = 0 then Some (w, InShutdown Shutdown_close) else None)"
| "goroutine_step ev w (InShutdown Shutdown_close) =
     (if closed (idleCons (cpool w))
      then Some (w, InShutdown (Shutdown_returned (Panic ''close of closed channel'')))
      else Some (w\<lparr>cpool := (cpool w)\<lparr>idleCons := (idleCons (cpool w))\<lparr>closed := True\<rparr>\<rparr>\<rparr>,
                 InShutdown Shutdown_range))"
| "goroutine_step ev w (InShutdown Shutdown_range) =
     (case buf (idleCons (cpool w)) of
        [] \<Rightarrow> Some (w, InShutdown (Shutdown_returned (Normal ())))
      | c # rest \<Rightarrow>
          (case conn_Close c (w\<lparr>cpool := (cpool w)\<lparr>idleCons := (idleCons (cpool w))\<lparr>buf := rest\<rparr>\<rparr>\<rparr>) of
             Panic v \<Rightarrow>
               Some (w\<lparr>cpool := (cpool w)\<lparr>idleCons := (idleCons (cpool w))\<lparr>buf := rest\<rparr>\<rparr>\<rparr>,
                     InShutdown (Shutdown_returned (Panic v)))
           | Normal w' \<Rightarrow> Some (w', InShutdown Shutdown_range)))"
| "goroutine_step ev w (InShutdown (Shutdown_returned r)) = None"
| "goroutine_step ev w (InGet ctx Direct_Get_IsShutdown) =
     Some (w, InGet ctx
       (if ConnPool_IsShutdown (cpool w) (ctxs w)
        then Direct_Get_returned NilConn (Some already_shutdown)
        else Direct_Get_select))"
| "goroutine_step ev w (InGet ctx Direct_Get_select) =
     (case select (Get_ready w ctx) (pick ev) of
        None \<Rightarrow> Some (w, InGet ctx Direct_Get_factory)
      | Some CaseCtxDone \<Rightarrow> Some (w, InGet ctx (Direct_Get_returned NilConn (Err (ctxs w) ctx)))
      | Some CaseChan \<Rightarrow>
          (case recv NilConn (idleCons (cpool w)) of
             (c, ch) \<Rightarrow>
               Some (w\<lparr>cpool := (cpool w)\<lparr>idleCons := ch\<rparr>\<rparr>, InGet ctx (Direct_Get_returned c None))))"
| "goroutine_step ev w (InGet ctx Direct_Get_factory) =
     (case factory_err ev of
        Some e \<Rightarrow> Some (w, InGet ctx (Direct_Get_returned NilConn (Some e)))
      | None \<Rightarrow>
          Some (w\<lparr>dialed := Suc (dialed w)\<rparr>,
                InGet ctx (Direct_Get_returned (Conn (dialed w)) None)))"
| "goroutine_step ev w (InGet ctx (Direct_Get_returned c e)) = None"
| "goroutine_step ev w (InPut c Direct_Put_IsShutdown) =
     (if ConnPool_IsShutdown (cpool w) (ctxs w)
      then (case conn_Close c w of
              Panic v \<Rightarrow> Some (w, InPut c (Direct_Put_returned (Panic v)))
            | Normal w' \<Rightarrow> Some (w', InPut c (Direct_Put_returned (Normal ()))))
      else Some (w, InPut c Direct_Put_select))"
| "goroutine_step ev w (InPut c Direct_Put_select) =
     (if closed (idleCons (cpool w))
      then Some (w, InPut c (Direct_Put_returned (Panic ''send on closed channel'')))
      else if can_send (idleCons (cpool w))
      then Some (w\<lparr>cpool := (cpool w)\<lparr>idleCons := send (idleCons (cpool w)) c\<rparr>\<rparr>,
                 InPut c (Direct_Put_returned (Normal ())))
      else (case conn_Close c w of
              Panic v \<Rightarrow> Some (w, InPut c (Direct_Put_returned (Panic v)))
            | Normal w' \<Rightarrow> Some (w', InPut c (Direct_Put_returned (Normal ())))))"
| "goroutine_step ev w (InPut c (Direct_Put_returned r)) = None"

text \<open>The whole system: the shared state and the goroutines that were started.\<close>

record 'r system =
  world :: "'r world"
  goroutines :: "'r goroutine list"

definition system_step :: "nat \<Rightarrow> 'r env \<Rightarrow> 'r system \<Rightarrow> 'r system option" where
  "system_step i ev s =
     (if i < length (goroutines s)
      then (case goroutine_step ev (world s) (goroutines s ! i) of
              None \<Rightarrow> None
            | Some (w', g') \<Rightarrow> Some \<lparr>world = w', goroutines = (goroutines s)[i := g']\<rparr>)
      else None)"

text \<open>
  The states a pool can reach: goroutines enter \<^verbatim>\<open>Execute\<close> with any context, enter
  \<^verbatim>\<open>Shutdown\<close>, or call the exported \<^verbatim>\<open>Get\<close> (with any context) and \<^verbatim>\<open>Put\<close> (with any
  connection) directly; any goroutine takes a step; and around the pool contexts are
  derived and cancelled.
\<close>

inductive reachable :: "'r system \<Rightarrow> 'r system \<Rightarrow> bool" for s0 :: "'r system" where
  start: "reachable s0 s0"
| call_Execute:
    "reachable s0 s \<Longrightarrow> reachable s0 (s\<lparr>goroutines := goroutines s @ [InExecute ctx Execute_IsShutdown]\<rparr>)"
| call_Shutdown:
    "reachable s0 s \<Longrightarrow> reachable s0 (s\<lparr>goroutines := goroutines s @ [InShutdown Shutdown_IsShutdown]\<rparr>)"
| call_Get:
    "reachable s0 s \<Longrightarrow> reachable s0 (s\<lparr>goroutines := goroutines s @ [InGet ctx Direct_Get_IsShutdown]\<rparr>)"
| call_Put:
    "reachable s0 s \<Longrightarrow> reachable s0 (s\<lparr>goroutines := goroutines s @ [InPut c Direct_Put_IsShutdown]\<rparr>)"
| step:
    "reachable s0 s \<Longrightarrow> system_step i ev s = Some s' \<Longrightarrow> reachable s0 s'"
| ctx_cancel:
    "reachable s0 s \<Longrightarrow>
     reachable s0 (s\<lparr>world := (world s)\<lparr>ctxs := cancel c e cz (ctxs (world s))\<rparr>\<rparr>)"
| ctx_derive:
    "reachable s0 s \<Longrightarrow>
     reachable s0 (s\<lparr>world := (world s)\<lparr>ctxs := snd (WithCancelCause c (ctxs (world s)))\<rparr>\<rparr>)"

text \<open>The system right after \<^verbatim>\<open>NewPool\<close>: no goroutine has called a method yet.\<close>

definition new_system :: "ConnPool \<Rightarrow> 'r ctxs \<Rightarrow> 'r system" where
  "new_system cp cs =
     \<lparr>world = \<lparr>ctxs = cs, cpool = cp, dialed = 0, closedConns = []\<rparr>, goroutines = []\<rparr>"

text \<open>
  A goroutine holds an admission slot from its send to \<^verbatim>\<open>cp.sema\<close> to the deferred
  receive; it has a connection in use from the return of \<^verbatim>\<open>Get\<close> until \<^verbatim>\<open>Put\<close> has
  handed the connection back or closed it.
\<close>

fun holds_slot :: "'r goroutine \<Rightarrow> nat" where
  "holds_slot (InExecute ctx Execute_IsShutdown) = 0"
| "holds_slot (InExecute ctx Execute_select) = 0"
| "holds_slot (InExecute ctx (Execute_returned r)) = 0"
| "holds_slot (InExecute ctx p) = 1"
| "holds_slot (InShutdown p) = 0"
| "holds_slot (InGet ctx p) = 0"
| "holds_slot (InPut c p) = 0"

fun uses_conn :: "'r goroutine \<Rightarrow> nat" where
  "uses_conn (InExecute ctx (Execute_fn c)) = 1"
| "uses_conn (InExecute ctx (Put_IsShutdown c r)) = 1"
| "uses_conn (InExecute ctx (Put_select c r)) = 1"
| "uses_conn g = 0"

text \<open>
  A goroutine that took the \<^verbatim>\<open>default\<close> case in \<^verbatim>\<open>Get\<close> is in the factory and will come
  back with a connection of its own; it counts towards the connections that exist or are
  about to.
\<close>

fun claims_conn :: "'r goroutine \<Rightarrow> nat" where
  "claims_conn (InExecute ctx Get_factory) = 1"
| "claims_conn g = uses_conn g"

text \<open>A goroutine that called \<^verbatim>\<open>Get\<close> or \<^verbatim>\<open>Put\<close> directly, not through \<^verbatim>\<open>Execute\<close>.\<close>

fun direct_call :: "'r goroutine \<Rightarrow> bool" where
  "direct_call (InGet ctx p) = True"
| "direct_call (InPut c p) = True"
| "direct_call g = False"

definition in_use :: "'r system \<Rightarrow> nat" where
  "in_use s = sum_list (map uses_conn (goroutines s))"

definition idle :: "'r system \<Rightarrow> nat" where
  "idle s = length (buf (idleCons (cpool (world s))))"

text \<open>A schedule: which goroutine moves next, and what the environment decides then.\<close>

fun system_run :: "(nat \<times> 'r env) list \<Rightarrow> 'r system \<Rightarrow> 'r system option" where
  "system_run [] s = Some s"
| "system_run ((i, ev) # sch) s =
     (case system_step i ev s of None \<Rightarrow> None | Some s' \<Rightarrow> system_run sch s')"

text \<open>
  The environment of an undisturbed step: the runtime picks the first ready case, the
  factory succeeds, and \<^verbatim>\<open>fn\<close> returns nil.
\<close>

definition quiet :: "'r env" where
  "quiet = \<lparr>pick = 0, factory_err = None, fn_result = Normal None\<rparr>"

section \<open>Properties of contexts\<close>

lemma length_cancel: "length (cancel c e cz cs) = length cs"
  by (simp add: cancel_def)

lemma derived_from_self: "derived_from cs k c c"
  by (cases k) simp_all

lemma cancel_nth:
  "i < length cs \<Longrightarrow>
   cancel c e cz cs ! i =
     (if c < length cs \<and> err (cs ! c) = None \<and> err (cs ! i) = None \<and>
         derived_from cs (length cs) c i
      then (cs ! i)\<lparr>err := Some e, cause := Some cz\<rparr> else cs ! i)"
  by (simp add: cancel_def)

lemma Err_cancel:
  "Err (cancel c e cz cs) i =
     (if i < length cs \<and> c < length cs \<and> err (cs ! c) = None \<and> err (cs ! i) = None \<and>
         derived_from cs (length cs) c i
      then Some e else Err cs i)"
  by (simp add: Err_def length_cancel cancel_nth)

lemma Cause_cancel:
  "Cause (cancel c e cz cs) i =
     (if i < length cs \<and> c < length cs \<and> err (cs ! c) = None \<and> err (cs ! i) = None \<and>
         derived_from cs (length cs) c i
      then Some cz else Cause cs i)"
  by (simp add: Cause_def length_cancel cancel_nth)

lemma Done_iff: "Done cs c = (c < length cs \<and> err (cs ! c) \<noteq> None)"
  by (simp add: Done_def Err_def)

lemma Done_cancel_keep:
  "Done cs i \<Longrightarrow> Err (cancel c e cz cs) i = Err cs i \<and> Cause (cancel c e cz cs) i = Cause cs i"
  by (auto simp: Done_iff Err_cancel Cause_cancel)

lemma Done_cancel_mono: "Done cs i \<Longrightarrow> Done (cancel c e cz cs) i"
  using Done_cancel_keep [of cs i c e cz] by (simp add: Done_def)

lemma cancel_self:
  "c < length cs \<Longrightarrow> \<not> Done cs c \<Longrightarrow>
   Err (cancel c e cz cs) c = Some e \<and> Cause (cancel c e cz cs) c = Some cz"
  by (simp add: Done_iff Err_cancel Cause_cancel derived_from_self)

lemma derived_from_child:
  "i < length cs \<Longrightarrow> err (cs ! i) = None \<Longrightarrow> parent (cs ! i) = Some p \<Longrightarrow>
   derived_from cs (length cs) p i"
  by (cases "length cs") (simp_all add: derived_from_self)

lemma cancel_child:
  "i < length cs \<Longrightarrow> p < length cs \<Longrightarrow> parent (cs ! i) = Some p \<Longrightarrow>
   \<not> Done cs i \<Longrightarrow> \<not> Done cs p \<Longrightarrow>
   Err (cancel p e cz cs) i = Some e \<and> Cause (cancel p e cz cs) i = Some cz"
  by (simp add: Done_iff Err_cancel Cause_cancel derived_from_child)

section \<open>Properties of Future\<close>

lemma Future_Get_cancel:
  "Future_Get z f cs = Some v \<Longrightarrow> Future_Get z f (cancel c e cz cs) = Some v"
proof -
  assume a: "Future_Get z f cs = Some v"
  then have d: "Done cs (f_ctx f)"
    by (simp add: Future_Get_def split: if_splits)
  from d a show ?thesis
    using Done_cancel_keep [OF d, of c e cz] Done_cancel_mono [OF d, of c e cz]
    by (simp add: Future_Get_def)
qed


lemma Future_IsDone_iff: "Future_IsDone f cs = Done cs (f_ctx f)"
  by (simp add: Future_IsDone_def Done_def)

lemma Future_callback_done: "Future_IsDone f cs \<Longrightarrow> Future_callback f r e cs = cs"
  by (auto simp: Future_IsDone_iff Done_iff Future_callback_def cancel_def)

lemma Future_callback_pending:
  "f_ctx f < length cs \<Longrightarrow> \<not> Future_IsDone f cs \<Longrightarrow>
   Future_IsDone f (Future_callback f r e cs) \<and>
   Future_Get z f (Future_callback f r e cs) = Some (r, e)"
  using cancel_self [of "f_ctx f" cs Canceled "FutureResult r e"]
  by (simp add: Future_IsDone_iff Future_callback_def Future_Get_def Done_def)

lemma Future_Run_done: "Future_IsDone f cs \<Longrightarrow> Future_Run z f cs = Normal cs"
  by (simp add: Future_Run_def)

lemma Future_Run_pending:
  assumes v: "f_ctx f < length cs" and p: "\<not> Future_IsDone f cs"
  shows "\<exists>cs'. Future_Run z f cs = Normal cs' \<and> Future_IsDone f cs' \<and>
     Future_Get z f cs' =
       Some (case task f cs (f_ctx f) of
               Normal re \<Rightarrow> re
             | Panic w \<Rightarrow> (z, Some (ErrorsNew (''task panicked: '' @ w))))"
proof (cases "task f cs (f_ctx f)")
  case (Normal re)
  obtain r e where re: "re = (r, e)" by (cases re)
  show ?thesis
    using Future_callback_pending [OF v p, where z = z and r = r and e = e] p Normal re
    by (simp add: Future_Run_def Future_invoke_def)
next
  case (Panic w)
  let ?cs1 = "Future_callback f z (Some (ErrorsNew (''task panicked: '' @ w))) cs"
  have d: "Future_IsDone f ?cs1" and g: "Future_Get z f ?cs1 = Some (z, Some (ErrorsNew (''task panicked: '' @ w)))"
    using Future_callback_pending [OF v p] by blast+
  have "Future_Run z f cs = Normal (Future_callback f z None ?cs1)"
    using p Panic by (simp add: Future_Run_def Future_invoke_def)
  with d g Panic show ?thesis
    by (simp add: Future_callback_done)
qed

lemma Future_call_done: "Future_IsDone f cs \<Longrightarrow> Future_call z f a cs = Normal cs"
  by (cases a) (simp_all add: Future_call_def Future_Run_done Future_Cancel_def Future_callback_done)

lemma Future_calls_done: "Future_IsDone f cs \<Longrightarrow> Future_calls z f as cs = Normal cs"
  by (induction as) (simp_all add: Future_call_done)

lemma Future_Run_Normal: "\<exists>cs'. Future_Run z f cs = Normal cs'"
  by (auto simp: Future_Run_def Future_invoke_def split: outcome.splits prod.splits)

lemma Future_callback_mono:
  "length (Future_callback f r e cs) = length cs \<and>
   (Future_IsDone g cs \<longrightarrow> Future_IsDone g (Future_callback f r e cs))"
  using Done_cancel_mono [of cs "f_ctx g" "f_ctx f" Canceled "FutureResult r e"]
  by (simp add: Future_callback_def length_cancel Future_IsDone_iff)

lemma Future_Run_mono:
  assumes "Future_Run z f cs = Normal cs'"
  shows "length cs' = length cs \<and> (Future_IsDone g cs \<longrightarrow> Future_IsDone g cs')"
  using assms Future_callback_mono [of f _ _ cs g]
    Future_callback_mono [of f _ _ "Future_callback f z (Some (ErrorsNew (''task panicked: '' @ _))) cs" g]
  by (auto simp: Future_Run_def Future_invoke_def split: if_splits outcome.splits prod.splits)

lemma Future_first_call:
  assumes v: "f_ctx f < length cs" and p: "\<not> Future_IsDone f cs"
  shows "\<exists>cs1. Future_call z f a cs = Normal cs1 \<and>
           Future_calls z f (a # as) cs = Normal cs1 \<and>
           Future_Get z f cs1 =
             Some (case a of
                     CallCancel \<Rightarrow> (z, Some Canceled)
                   | CallRun \<Rightarrow>
                       (case task f cs (f_ctx f) of
                          Normal re \<Rightarrow> re
                        | Panic w \<Rightarrow> (z, Some (ErrorsNew (''task panicked: '' @ w)))))"
proof (cases a)
  case CallRun
  obtain cs1 where r: "Future_Run z f cs = Normal cs1" and d: "Future_IsDone f cs1"
    and g: "Future_Get z f cs1 =
       Some (case task f cs (f_ctx f) of
               Normal re \<Rightarrow> re
             | Panic w \<Rightarrow> (z, Some (ErrorsNew (''task panicked: '' @ w))))"
    using Future_Run_pending [OF v p, where z = z] by blast
  show ?thesis
    using r g CallRun Future_calls_done [OF d, where z = z and as = as]
    by (simp add: Future_call_def)
next
  case CallCancel
  show ?thesis
    using Future_callback_pending [OF v p, where z = z and r = z and e = "Some Canceled"] CallCancel
      Future_calls_done [where f = f and cs = "Future_Cancel z f cs" and z = z and as = as]
    by (simp add: Future_call_def Future_Cancel_def)
qed

text \<open>
  Claim C1.  Take a Future that is still pending and any sequence of \<^verbatim>\<open>Run()\<close> and
  \<^verbatim>\<open>Cancel()\<close> calls on it.  The first call completes it: a \<^verbatim>\<open>Run\<close> with what the task
  returned, or with the error \<open>task panicked: ...\<close> when the task panicked, a
  \<^verbatim>\<open>Cancel\<close> with \<^verbatim>\<open>context.Canceled\<close>.  Every later call leaves the state as the first
  call left it, so \<^verbatim>\<open>Get()\<close> returns the pair of the first completion ever after.  Nor
  does any cancellation of any context change what \<^verbatim>\<open>Get()\<close> returns from then on, and a
  cancellation is all that a \<^verbatim>\<open>Run\<close> or \<^verbatim>\<open>Cancel\<close> racing with these calls does to the
  store.
\<close>

theorem Future_first_completion_wins:
  assumes v: "f_ctx f < length cs" and p: "\<not> Future_IsDone f cs"
  shows "\<exists>cs1. Future_call z f a cs = Normal cs1 \<and>
           Future_calls z f (a # as) cs = Normal cs1 \<and>
           Future_Get z f cs1 =
             Some (case a of
                     CallCancel \<Rightarrow> (z, Some Canceled)
                   | CallRun \<Rightarrow>
                       (case task f cs (f_ctx f) of
                          Normal re \<Rightarrow> re
                        | Panic w \<Rightarrow> (z, Some (ErrorsNew (''task panicked: '' @ w))))) \<and>
           (\<forall>c e cz. Future_Get z f (cancel c e cz cs1) = Future_Get z f cs1)"
proof -
  obtain cs1 where c: "Future_call z f a cs = Normal cs1"
    and cs: "Future_calls z f (a # as) cs = Normal cs1"
    and g: "Future_Get z f cs1 =
             Some (case a of
                     CallCancel \<Rightarrow> (z, Some Canceled)
                   | CallRun \<Rightarrow>
                       (case task f cs (f_ctx f) of
                          Normal re \<Rightarrow> re
                        | Panic w \<Rightarrow> (z, Some (ErrorsNew (''task panicked: '' @ w)))))"
    using Future_first_call [OF v p, where z = z and a = a and as = as] by blast
  have "\<forall>c e cz. Future_Get z f (cancel c e cz cs1) = Future_Get z f cs1"
    using Future_Get_cancel [OF g] g by simp
  with c cs g show ?thesis by blast
qed

text \<open>
  Witness for C1: a pending Future whose task returns \<open>(7, nil)\<close>; \<^verbatim>\<open>Run\<close>, then
  \<^verbatim>\<open>Cancel\<close>, then \<^verbatim>\<open>Run\<close> again.
\<close>

theorem Future_first_completion_wins_witness:
  "f_ctx \<lparr>f_ctx = 1, task = (\<lambda>_ _. Normal (7 :: nat, None))\<rparr> <
     length [Background, \<lparr>parent = Some 0, err = None, cause = None\<rparr>] \<and>
   \<not> Future_IsDone \<lparr>f_ctx = 1, task = (\<lambda>_ _. Normal (7 :: nat, None))\<rparr>
       [Background, \<lparr>parent = Some 0, err = None, cause = None\<rparr>] \<and>
   (\<exists>cs1. Future_calls 0 \<lparr>f_ctx = 1, task = (\<lambda>_ _. Normal (7 :: nat, None))\<rparr>
             [CallRun, CallCancel, CallRun]
             [Background, \<lparr>parent = Some 0, err = None, cause = None\<rparr>] = Normal cs1 \<and>
          Future_Get 0 \<lparr>f_ctx = 1, task = (\<lambda>_ _. Normal (7 :: nat, None))\<rparr> cs1 = Some (7, None))"
  using Future_first_completion_wins
    [of "\<lparr>f_ctx = 1, task = (\<lambda>_ _. Normal (7 :: nat, None))\<rparr>"
        "[Background, \<lparr>parent = Some 0, err = None, cause = None\<rparr>]"
        0 CallRun "[CallCancel, CallRun]"]
  by (auto simp: Future_IsDone_def Err_def)

text \<open>
  Claim C8.  When the task of a pending Future panics during \<^verbatim>\<open>Run()\<close>, \<^verbatim>\<open>Run\<close> returns
  normally, and \<^verbatim>\<open>Get()\<close> then returns the zero value with the error
  \<open>task panicked: ...\<close>; the panic never leaves \<^verbatim>\<open>Run\<close>.
\<close>

theorem Future_Run_recovers_panic:
  assumes v: "f_ctx f < length cs" and p: "\<not> Future_IsDone f cs"
    and t: "task f cs (f_ctx f) = Panic w"
  shows "(\<exists>cs'. Future_Run z f cs = Normal cs' \<and>
            Future_Get z f cs' = Some (z, Some (ErrorsNew (''task panicked: '' @ w)))) \<and>
         Future_Run z f cs \<noteq> Panic u"
  using Future_Run_pending [OF v p, where z = z] t by auto

text \<open>Witness for C8: a pending Future whose task panics with the value \<open>boom\<close>.\<close>

theorem Future_Run_recovers_panic_witness:
  "f_ctx \<lparr>f_ctx = 1, task = (\<lambda>_ _. Panic ''boom'' :: (nat \<times> nat error option) outcome)\<rparr> <
     length [Background, \<lparr>parent = Some 0, err = None, cause = None\<rparr>] \<and>
   \<not> Future_IsDone \<lparr>f_ctx = 1, task = (\<lambda>_ _. Panic ''boom'' :: (nat \<times> nat error option) outcome)\<rparr>
       [Background, \<lparr>parent = Some 0, err = None, cause = None\<rparr>] \<and>
   (\<exists>cs'. Future_Run 0 \<lparr>f_ctx = 1, task = (\<lambda>_ _. Panic ''boom'' :: (nat \<times> nat error option) outcome)\<rparr>
             [Background, \<lparr>parent = Some 0, err = None, cause = None\<rparr>] = Normal cs' \<and>
          Future_Get 0 \<lparr>f_ctx = 1, task = (\<lambda>_ _. Panic ''boom'' :: (nat \<times> nat error option) outcome)\<rparr> cs' =
            Some (0, Some (ErrorsNew ''task panicked: boom'')))"
  using Future_Run_recovers_panic
    [of "\<lparr>f_ctx = 1, task = (\<lambda>_ _. Panic ''boom'' :: (nat \<times> nat error option) outcome)\<rparr>"
        "[Background, \<lparr>parent = Some 0, err = None, cause = None\<rparr>]" "''boom''" 0]
  by (auto simp: Future_IsDone_def Err_def)


section \<open>A Future and its caller's context\<close>

lemma NewFuture_props:
  assumes "NewFuture p t cs = (f, cs')"
  shows "f_ctx f = length cs" and "task f = t" and "length cs' = Suc (length cs)"
    and "parent (cs' ! length cs) = Some p" and "Err cs' (length cs) = Err cs p"
    and "Cause cs' (length cs) = Cause cs p"
    and "i < length cs \<Longrightarrow> cs' ! i = cs ! i"
  using assms
  by (auto simp: NewFuture_def WithCancelCause_def Err_def Cause_def nth_append)

lemma NewFuture_Done_old:
  assumes "NewFuture p t cs = (f, cs')" and "i < length cs"
  shows "Done cs' i = Done cs i"
  using NewFuture_props(3,7) [OF assms(1)] assms(2)
  by (simp add: Done_def Err_def)

text \<open>
  Counterexample to C4 as stated.  \<^verbatim>\<open>Get()\<close> takes no context; the caller's context is
  the one given to \<^verbatim>\<open>NewFuture\<close>, and the Future's own context is derived from it.  A
  Future is made under context 0, whose task would return \<open>(7, nil)\<close>.  Before the
  cancellation \<^verbatim>\<open>Get\<close> blocks.  Cancelling context 0 completes the Future: it is done,
  \<^verbatim>\<open>Get\<close> returns \<open>(0, context.Canceled)\<close>, and a \<^verbatim>\<open>Run()\<close> afterwards does not store
  the task's result.
\<close>

theorem Get_after_caller_cancellation_counterexample:
  "case NewFuture 0 (\<lambda>_ _. Normal (7 :: nat, None)) [Background] of
     (f, cs1) \<Rightarrow>
       Future_Get 0 f cs1 = None \<and>
       Future_IsDone f (cancel 0 Canceled Canceled cs1) \<and>
       Future_Get 0 f (cancel 0 Canceled Canceled cs1) = Some (0, Some Canceled) \<and>
       (case Future_Run 0 f (cancel 0 Canceled Canceled cs1) of
          Panic v \<Rightarrow> False
        | Normal cs3 \<Rightarrow>
            Future_Get 0 f cs3 = Some (0, Some Canceled) \<and> Future_Get 0 f cs3 \<noteq> Some (7, None))"
  by code_simp

text \<open>
  Claim C4, amended.  When the caller's context, from which \<^verbatim>\<open>NewFuture\<close> derived the
  Future's context, is cancelled before the Future completes, the cancellation reaches
  the Future and completes it: \<^verbatim>\<open>Get()\<close>, which blocked before, returns the zero value
  with the caller's cancellation cause (or the content of the cause, should it be a
  \<^verbatim>\<open>*futureResult\<close>), and no later \<^verbatim>\<open>Run()\<close> or \<^verbatim>\<open>Cancel()\<close> changes the state.
\<close>

theorem Future_completed_by_caller_cancellation:
  assumes p: "p < length cs" and live: "\<not> Done cs p" and new: "NewFuture p t cs = (f, cs1)"
  shows "Future_Get z f cs1 = None \<and>
         Future_Get z f (cancel p e cz cs1) =
           Some (case cz of FutureResult r e' \<Rightarrow> (r, e') | _ \<Rightarrow> (z, Some cz)) \<and>
         Future_calls z f as (cancel p e cz cs1) = Normal (cancel p e cz cs1)"
proof -
  note props = NewFuture_props [OF new]
  have fl: "f_ctx f < length cs1" using props(1,3) by simp
  have pl: "p < length cs1" using p props(3) by simp
  have pend: "\<not> Done cs1 (f_ctx f)"
    using live props(1,5) by (simp add: Done_def)
  have plive: "\<not> Done cs1 p"
    using live NewFuture_Done_old [OF new p] by simp
  have par: "parent (cs1 ! f_ctx f) = Some p" using props(1,4) by simp
  have g0: "Future_Get z f cs1 = None"
    using pend by (simp add: Future_Get_def)
  have c: "Err (cancel p e cz cs1) (f_ctx f) = Some e \<and> Cause (cancel p e cz cs1) (f_ctx f) = Some cz"
    by (rule cancel_child [OF fl pl par pend plive])
  then have d: "Future_IsDone f (cancel p e cz cs1)"
    by (simp add: Future_IsDone_def)
  have g1: "Future_Get z f (cancel p e cz cs1) =
           Some (case cz of FutureResult r e' \<Rightarrow> (r, e') | _ \<Rightarrow> (z, Some cz))"
    using c by (cases cz) (simp_all add: Future_Get_def Done_def)
  from g0 g1 Future_calls_done [OF d] show ?thesis by simp
qed

text \<open>Witness for C4: a Future under \<^verbatim>\<open>context.Background()\<close>, cancelled with \<^verbatim>\<open>Canceled\<close>.\<close>

theorem Future_completed_by_caller_cancellation_witness:
  "(0 :: nat) < length [Background :: nat cancelCtx] \<and>
   \<not> Done [Background :: nat cancelCtx] 0 \<and>
   NewFuture 0 (\<lambda>_ _. Normal (7 :: nat, None)) [Background] =
     (\<lparr>f_ctx = 1, task = (\<lambda>_ _. Normal (7, None))\<rparr>,
      [Background, \<lparr>parent = Some 0, err = None, cause = None\<rparr>]) \<and>
   Future_Get 0 \<lparr>f_ctx = 1, task = (\<lambda>_ _. Normal (7 :: nat, None))\<rparr>
     (cancel 0 Canceled Canceled [Background, \<lparr>parent = Some 0, err = None, cause = None\<rparr>]) =
     Some (0, Some Canceled) \<and>
   Future_calls 0 \<lparr>f_ctx = 1, task = (\<lambda>_ _. Normal (7 :: nat, None))\<rparr> [CallRun, CallCancel]
     (cancel 0 Canceled Canceled [Background, \<lparr>parent = Some 0, err = None, cause = None\<rparr>]) =
     Normal (cancel 0 Canceled Canceled [Background, \<lparr>parent = Some 0, err = None, cause = None\<rparr>])"
proof -
  have n: "NewFuture 0 (\<lambda>_ _. Normal (7 :: nat, None)) [Background] =
     (\<lparr>f_ctx = 1, task = (\<lambda>_ _. Normal (7, None))\<rparr>,
      [Background, \<lparr>parent = Some 0, err = None, cause = None\<rparr>])"
    by (simp add: NewFuture_def WithCancelCause_def Err_def Cause_def Background_def)
  have l: "\<not> Done [Background :: nat cancelCtx] 0"
    by (simp add: Done_def Err_def Background_def)
  show ?thesis
    using Future_completed_by_caller_cancellation [OF _ l n, of 0 Canceled Canceled "[CallRun, CallCancel]"] n l
    by simp
qed

section \<open>Properties of WorkerPool\<close>

lemma spawn_workers_count:
  "i \<le>s n \<Longrightarrow> spawn_workers i n k = k + nat (sint n - sint i)"
proof (induction i n k rule: spawn_workers.induct)
  case (1 i n k)
  show ?case
  proof (cases "i <s n")
    case True
    then have "i + 1 \<le>s n" by (simp add: word_sle_eq word_sless_alt sint_succ)
    from "1.IH" [OF True this] True show ?thesis
      by (subst spawn_workers.simps) (simp add: sint_succ word_sless_alt)
  next
    case False
    with "1.prems" have "sint i = sint n" by (simp add: word_sle_eq word_sless_alt)
    with False show ?thesis by (subst spawn_workers.simps) simp
  qed
qed

lemma mod_wrap: "0 \<le> (a::int) \<Longrightarrow> a < m \<Longrightarrow> (a + m) mod m = a"
  by simp

lemma signed_take_bit_63_wrap:
  assumes lo: "2 ^ 63 \<le> (k::int)" and hi: "k < 2 ^ 64"
  shows "signed_take_bit 63 k = k - 2 ^ 64"
proof -
  have l: "0 \<le> k - 2 ^ 63" and h: "k - 2 ^ 63 < 2 ^ 64"
    using lo hi by simp_all
  have e: "k + 2 ^ 63 = (k - 2 ^ 63) + 2 ^ 64"
    by simp
  have "(k + 2 ^ 63) mod 2 ^ 64 = k - 2 ^ 63"
    unfolding e by (rule mod_wrap [OF l h])
  then show ?thesis
    by (simp add: signed_take_bit_eq_take_bit_shift take_bit_eq_mod)
qed

lemma unat_nonneg:
  assumes "0 \<le> sint (w::64 word)"
  shows "int (unat w) = sint w"
proof -
  have u0: "0 \<le> uint w" by (rule uint_ge_0)
  have u1: "uint w < 2 ^ 64" using uint_lt2p [of w] by simp
  have s: "sint w = signed_take_bit 63 (uint w)" by (simp add: sint_uint)
  have "uint w < 2 ^ 63"
  proof (rule ccontr)
    assume "\<not> uint w < 2 ^ 63"
    then have "signed_take_bit 63 (uint w) = uint w - 2 ^ 64"
      using u1 by (intro signed_take_bit_63_wrap) simp_all
    with s u1 assms show False by simp
  qed
  moreover have "- (2 ^ 63) \<le> uint w"
    by (rule order_trans [OF _ u0]) simp
  ultimately have "signed_take_bit 63 (uint w) = uint w"
    by (intro signed_take_bit_int_eq_self) simp_all
  with s show ?thesis by simp
qed

lemma double_nonneg:
  assumes "0 <s (n::64 word)" and "\<not> n * 2 <s 0"
  shows "sint (n * 2) = 2 * sint n"
proof -
  have pos: "0 < sint n" using assms(1) by (simp add: word_sless_alt)
  have ub: "sint n < 2 ^ 63" using sint_lt [of n] by simp
  have nn: "0 \<le> sint (n * 2)" using assms(2) by (simp add: word_sless_alt)
  have eq: "sint (n * 2) = signed_take_bit 63 (sint n * 2)"
    by (simp add: sint_word_mult)
  have "sint n * 2 < 2 ^ 63"
  proof (rule ccontr)
    assume "\<not> sint n * 2 < 2 ^ 63"
    then have "signed_take_bit 63 (sint n * 2) = sint n * 2 - 2 ^ 64"
      using ub by (intro signed_take_bit_63_wrap) simp_all
    with eq nn ub show False by simp
  qed
  then have "signed_take_bit 63 (sint n * 2) = sint n * 2"
    using pos by (intro signed_take_bit_int_eq_self) simp_all
  with eq show ?thesis by simp
qed

lemma NewWorkerPool_Normal:
  assumes "NewWorkerPool ctx size0 cs = Normal (wp, n, cs')"
  shows "1 \<le> n \<and> int n = sint (wp_size wp) \<and> cap (taskQueue wp) = 2 * n \<and>
         wp_size wp = (if size0 \<le>s 0 then 1 else size0) \<and> buf (taskQueue wp) = []"
proof -
  define size1 where "size1 = (if size0 \<le>s 0 then 1 else size0)"
  have pos: "0 <s size1"
    by (auto simp: size1_def word_sle_eq word_sless_alt)
  from assms have nneg: "\<not> size1 * 2 <s 0"
    and wp: "wp = \<lparr>wp_ctx = length cs, wp_size = size1, taskQueue = make_chan (unat (size1 * 2))\<rparr>"
    and n: "n = spawn_workers 0 size1 0"
    by (auto simp: NewWorkerPool_def WithCancelCause_def size1_def Let_def split: if_splits)
  have p: "0 < sint size1" using pos by (simp add: word_sless_alt)
  have "0 \<le>s size1" using p by (simp add: word_sle_eq)
  then have n': "n = nat (sint size1)"
    using n by (simp add: spawn_workers_count)
  have d: "sint (size1 * 2) = 2 * sint size1"
    by (rule double_nonneg [OF pos nneg])
  then have "int (unat (size1 * 2)) = 2 * sint size1"
    using unat_nonneg [of "size1 * 2"] p by simp
  then have c: "unat (size1 * 2) = 2 * n"
    using n' p by linarith
  show ?thesis
    using n' p c by (simp add: wp make_chan_def size1_def)
qed

lemma NewWorkerPool_clamp:
  assumes "size0 \<le>s 0"
  shows "\<exists>wp cs'. NewWorkerPool ctx size0 cs = Normal (wp, 1, cs') \<and> wp_size wp = 1 \<and>
           cap (taskQueue wp) = 2"
proof -
  have "spawn_workers 0 1 0 = 1"
    by (simp add: spawn_workers_count word_sle_eq)
  then show ?thesis
    using assms by (simp add: NewWorkerPool_def WithCancelCause_def make_chan_def word_sless_alt)
qed

text \<open>
  Claim C10.  For every requested size \<open>s \<le> 0\<close>, \<^verbatim>\<open>NewWorkerPool\<close> returns a pool of
  size 1 with one worker and a queue of capacity 2; and every pool that
  \<^verbatim>\<open>NewWorkerPool\<close> returns has at least one worker, as many workers as its size, and a
  task queue of capacity twice the number of workers.
\<close>

theorem NewWorkerPool_at_least_one_worker:
  "(size0 \<le>s 0 \<longrightarrow>
      (\<exists>wp cs'. NewWorkerPool ctx size0 cs = Normal (wp, 1, cs') \<and> wp_size wp = 1 \<and>
         cap (taskQueue wp) = 2)) \<and>
   (\<forall>wp n cs'. NewWorkerPool ctx size0 cs = Normal (wp, n, cs') \<longrightarrow>
      1 \<le> n \<and> int n = sint (wp_size wp) \<and> cap (taskQueue wp) = 2 * n)"
  using NewWorkerPool_clamp [of size0 ctx cs] NewWorkerPool_Normal [of ctx size0 cs]
  by blast

text \<open>Witness for C10: the requested sizes \<open>-3\<close> and \<open>4\<close>.\<close>

theorem NewWorkerPool_at_least_one_worker_witness:
  "((- 3 :: 64 word) \<le>s 0) \<and>
   (\<exists>wp cs'. NewWorkerPool 0 (- 3) [Background :: nat cancelCtx] = Normal (wp, 1, cs') \<and>
      wp_size wp = 1 \<and> cap (taskQueue wp) = 2) \<and>
   (\<exists>wp cs'. NewWorkerPool 0 4 [Background :: nat cancelCtx] = Normal (wp, 4, cs') \<and>
      sint (wp_size wp) = 4 \<and> cap (taskQueue wp) = 8)"
proof -
  have a: "(- 3 :: 64 word) \<le>s 0" by (simp add: word_sle_eq)
  have "spawn_workers 0 (4 :: 64 word) 0 = 4"
    by (simp add: spawn_workers_count word_sle_eq)
  then have b: "\<exists>wp cs'. NewWorkerPool 0 4 [Background :: nat cancelCtx] = Normal (wp, 4, cs')"
    by (simp add: NewWorkerPool_def WithCancelCause_def word_sle_eq word_sless_alt)
  show ?thesis
    using a b NewWorkerPool_at_least_one_worker [of "- 3" 0 "[Background :: nat cancelCtx]"]
      NewWorkerPool_at_least_one_worker [of 4 0 "[Background :: nat cancelCtx]"]
    by fastforce
qed

text \<open>
  Claim C2, evaluated on the code.  A pool of size 1 is shut down; \<^verbatim>\<open>Submit\<close> with the
  live context 1 then returns a Future whose task would return
  \<^verbatim>\<open>ErrWorkerPoolShutdown\<close>, but nothing has run it: the Future is not done and
  \<^verbatim>\<open>Get()\<close> blocks, until the caller cancels context 1, and then \<^verbatim>\<open>Get()\<close> yields
  \<^verbatim>\<open>context.Canceled\<close>.  Likewise the third \<^verbatim>\<open>Submit\<close> to a live pool whose queue of
  capacity 2 is full returns a Future around \<^verbatim>\<open>ErrTaskQueueFull\<close> that is not done.
\<close>

theorem Submit_rejection_never_completes:
  "case NewWorkerPool 0 1 [Background, Background] of
     Panic v \<Rightarrow> False
   | Normal (wp, n, cs1) \<Rightarrow>
       (case workerPool_Submit (0::nat) wp 1 (\<lambda>_ _. Normal (7, None)) (workerPool_Shutdown wp cs1) of
          (f, wp', cs3) \<Rightarrow>
            workerPool_IsShutdown wp (workerPool_Shutdown wp cs1) \<and>
            task f cs3 (f_ctx f) = Normal (0, Some ErrWorkerPoolShutdown) \<and>
            \<not> Done cs3 1 \<and> \<not> Future_IsDone f cs3 \<and> Future_Get 0 f cs3 = None \<and>
            Future_Get 0 f (cancel 1 Canceled Canceled cs3) = Some (0, Some Canceled)) \<and>
       (case workerPool_Submit (0::nat) wp 1 (\<lambda>_ _. Normal (7, None)) cs1 of
          (f1, wp1, cs4) \<Rightarrow>
            (case workerPool_Submit 0 wp1 1 (\<lambda>_ _. Normal (7, None)) cs4 of
               (f2, wp2, cs5) \<Rightarrow>
                 (case workerPool_Submit 0 wp2 1 (\<lambda>_ _. Normal (7, None)) cs5 of
                    (f3, wp3, cs6) \<Rightarrow>
                      length (buf (taskQueue wp3)) = 2 \<and>
                      task f3 cs6 (f_ctx f3) = Normal (0, Some ErrTaskQueueFull) \<and>
                      \<not> Future_IsDone f3 cs6 \<and> Future_Get 0 f3 cs6 = None)))"
  by code_simp


subsection \<open>The select statement\<close>

lemma select_Nil: "select [] k = None"
  by (simp add: select_def)

lemma select_single: "select [x] k = Some x"
  by (simp add: select_def)

lemma select_member: "select xs k = Some x \<Longrightarrow> x \<in> set xs"
  by (auto simp: select_def split: if_splits)


subsection \<open>The worker loop\<close>

text \<open>
  Once a context is done it stays done, through \<^verbatim>\<open>Run\<close>, \<^verbatim>\<open>NewFuture\<close> and \<^verbatim>\<open>Submit\<close>.
\<close>

lemma Future_Run_Done_mono:
  assumes "Future_Run z f cs = Normal cs'"
  shows "length cs' = length cs \<and> (Done cs i \<longrightarrow> Done cs' i)"
  using Future_Run_mono [OF assms, of "\<lparr>f_ctx = i, task = task f\<rparr>"]
  by (simp add: Future_IsDone_iff)

lemma IsShutdown_iff: "workerPool_IsShutdown wp cs = Done cs (wp_ctx wp)"
  by (simp add: workerPool_IsShutdown_def Done_def)

lemma NewFuture_Done_mono:
  assumes "NewFuture p t cs = (f, cs')"
  shows "Done cs i \<longrightarrow> Done cs' i"
  using NewFuture_Done_old [OF assms, of i] by (auto simp: Done_iff)

lemma Submit_Done_mono:
  assumes "workerPool_Submit z wp ctx t cs = (f, wp', cs')"
  shows "wp_ctx wp' = wp_ctx wp \<and> (Done cs i \<longrightarrow> Done cs' i)"
proof (cases "workerPool_IsShutdown wp cs")
  case True
  with assms obtain t' where "NewFuture ctx t' cs = (f, cs')" and "wp' = wp"
    by (auto simp: workerPool_Submit_def split: prod.splits)
  then show ?thesis using NewFuture_Done_mono by blast
next
  case False
  obtain f1 cs1 where n1: "NewFuture ctx t cs = (f1, cs1)" by (cases "NewFuture ctx t cs")
  show ?thesis
  proof (cases "can_send (taskQueue wp)")
    case True
    with assms False n1 have "cs' = cs1" and "wp_ctx wp' = wp_ctx wp"
      by (auto simp: workerPool_Submit_def)
    then show ?thesis using NewFuture_Done_mono [OF n1] by simp
  next
    case full: False
    with assms False n1 obtain t' where "NewFuture ctx t' cs1 = (f, cs')" and "wp' = wp"
      by (auto simp: workerPool_Submit_def split: prod.splits)
    then show ?thesis using NewFuture_Done_mono [OF n1, of i] NewFuture_Done_mono [of ctx t' cs1 f cs' i]
      by blast
  qed
qed

text \<open>
  What a single step of a worker can do: a step that ends the worker finds the pool shut
  down, no step ends it by a panic, and no step revives a cancelled token.
\<close>

lemma worker_select_ready:
  "select (worker_ready wp cs) k = Some x \<Longrightarrow>
   (x = CaseChan \<longrightarrow> buf (taskQueue wp) \<noteq> []) \<and> (x = CaseCtxDone \<longrightarrow> Done cs (wp_ctx wp))"
  by (drule select_member) (auto simp: worker_ready_def split: if_splits)

lemma worker_step_returned:
  assumes "workerPool_worker k z p wp cs = Some (Worker_returned, wp', cs')"
  shows "workerPool_IsShutdown wp cs \<and> wp' = wp \<and> cs' = cs"
proof (cases p)
  case Worker_IsShutdown
  with assms show ?thesis by (auto simp: workerPool_worker_def split: if_splits)
next
  case Worker_select
  show ?thesis
  proof (cases "select (worker_ready wp cs) k")
    case None
    with assms Worker_select show ?thesis by (simp add: workerPool_worker_def)
  next
    case (Some x)
    with assms Worker_select worker_select_ready [OF Some] show ?thesis
      by (cases x) (auto simp: workerPool_worker_def IsShutdown_iff split: list.splits)
  qed
next
  case (Worker_Run future)
  with assms show ?thesis by (auto simp: workerPool_worker_def split: outcome.splits)
next
  case Worker_returned
  with assms show ?thesis by (simp add: workerPool_worker_def)
next
  case (Worker_crashed v)
  with assms show ?thesis by (simp add: workerPool_worker_def)
qed

lemma worker_step_not_crashed:
  "workerPool_worker k z p wp cs \<noteq> Some (Worker_crashed v, wp', cs')"
proof (cases p)
  case (Worker_Run future)
  obtain cs1 where "Future_Run z future cs = Normal cs1"
    using Future_Run_Normal [of z future cs] by blast
  with Worker_Run show ?thesis by (simp add: workerPool_worker_def)
next
  case Worker_select
  then show ?thesis
    by (auto simp: workerPool_worker_def split: option.splits select_case.splits list.splits)
qed (simp_all add: workerPool_worker_def)

lemma worker_step_mono:
  assumes "workerPool_worker k z p wp cs = Some (p', wp', cs')"
  shows "wp_ctx wp' = wp_ctx wp \<and> (Done cs i \<longrightarrow> Done cs' i)"
proof (cases p)
  case (Worker_Run future)
  obtain cs1 where r: "Future_Run z future cs = Normal cs1"
    using Future_Run_Normal [of z future cs] by blast
  with assms Worker_Run have "cs' = cs1" and "wp' = wp" by (simp_all add: workerPool_worker_def)
  then show ?thesis using Future_Run_Done_mono [OF r, of i] by simp
next
  case Worker_select
  with assms show ?thesis
    by (auto simp: workerPool_worker_def split: option.splits select_case.splits list.splits)
qed (use assms in \<open>auto simp: workerPool_worker_def split: if_splits\<close>)


text \<open>
  The same for whole runs of a pool with its workers, under any sequence of \<^verbatim>\<open>Submit\<close> and
  \<^verbatim>\<open>Shutdown\<close> calls, worker steps and cancellations of contexts.
\<close>

lemma pool_event_inv:
  assumes inv: "\<forall>p \<in> set (ps_workers s).
      (p = Worker_returned \<longrightarrow> workerPool_IsShutdown (ps_pool s) (ps_ctxs s)) \<and>
      (\<forall>v. p \<noteq> Worker_crashed v)"
  shows "\<forall>p \<in> set (ps_workers (pool_event z ev s)).
      (p = Worker_returned \<longrightarrow>
         workerPool_IsShutdown (ps_pool (pool_event z ev s)) (ps_ctxs (pool_event z ev s))) \<and>
      (\<forall>v. p \<noteq> Worker_crashed v)"
proof (cases ev)
  case (Submit_called ctx t)
  obtain f wp' cs' where sub: "workerPool_Submit z (ps_pool s) ctx t (ps_ctxs s) = (f, wp', cs')"
    by (cases "workerPool_Submit z (ps_pool s) ctx t (ps_ctxs s)")
  from Submit_Done_mono [OF sub, of "wp_ctx (ps_pool s)"] inv sub Submit_called
  show ?thesis by (auto simp: pool_event_def IsShutdown_iff)
next
  case Shutdown_called
  with inv Done_cancel_mono [of "ps_ctxs s" "wp_ctx (ps_pool s)"] show ?thesis
    by (auto simp: pool_event_def workerPool_Shutdown_def IsShutdown_iff)
next
  case (Ctx_cancelled c)
  with inv Done_cancel_mono [of "ps_ctxs s" "wp_ctx (ps_pool s)"] show ?thesis
    by (auto simp: pool_event_def IsShutdown_iff)
next
  case (Worker_steps i k)
  show ?thesis
  proof (cases "i < length (ps_workers s) \<and>
      workerPool_worker k z (ps_workers s ! i) (ps_pool s) (ps_ctxs s) \<noteq> None")
    case False
    then have "pool_event z ev s = s"
      using Worker_steps
      by (cases "workerPool_worker k z (ps_workers s ! i) (ps_pool s) (ps_ctxs s)")
         (auto simp: pool_event_def)
    with inv show ?thesis by simp
  next
    case True
    then obtain p' wp' cs' where i: "i < length (ps_workers s)"
      and st: "workerPool_worker k z (ps_workers s ! i) (ps_pool s) (ps_ctxs s) = Some (p', wp', cs')"
      by auto
    have ev: "pool_event z ev s =
        \<lparr>ps_pool = wp', ps_workers = (ps_workers s)[i := p'], ps_ctxs = cs'\<rparr>"
      using Worker_steps i st by (simp add: pool_event_def)
    note mono = worker_step_mono [OF st, of "wp_ctx (ps_pool s)"]
    have new: "(p' = Worker_returned \<longrightarrow> workerPool_IsShutdown wp' cs') \<and>
        (\<forall>v. p' \<noteq> Worker_crashed v)"
      using worker_step_returned [of k z "ps_workers s ! i" "ps_pool s" "ps_ctxs s" wp' cs']
        worker_step_not_crashed [of k z "ps_workers s ! i" "ps_pool s" "ps_ctxs s" _ wp' cs'] st
      by auto
    show ?thesis
    proof
      fix p assume "p \<in> set (ps_workers (pool_event z ev s))"
      then have "p \<in> set ((ps_workers s)[i := p'])" by (simp add: ev)
      then have "p = p' \<or> p \<in> set (ps_workers s)"
        using set_update_subset_insert [of "ps_workers s" i p'] by auto
      then show "(p = Worker_returned \<longrightarrow>
         workerPool_IsShutdown (ps_pool (pool_event z ev s)) (ps_ctxs (pool_event z ev s))) \<and>
        (\<forall>v. p \<noteq> Worker_crashed v)"
        using new inv mono by (auto simp: ev IsShutdown_iff)
    qed
  qed
qed

lemma pool_run_inv:
  "\<forall>p \<in> set (ps_workers s).
      (p = Worker_returned \<longrightarrow> workerPool_IsShutdown (ps_pool s) (ps_ctxs s)) \<and>
      (\<forall>v. p \<noteq> Worker_crashed v) \<Longrightarrow>
   \<forall>p \<in> set (ps_workers (pool_run z evs s)).
      (p = Worker_returned \<longrightarrow>
         workerPool_IsShutdown (ps_pool (pool_run z evs s)) (ps_ctxs (pool_run z evs s))) \<and>
      (\<forall>v. p \<noteq> Worker_crashed v)"
proof (induction evs arbitrary: s)
  case Nil
  then show ?case by (simp add: pool_run_def)
next
  case (Cons ev evs)
  have "pool_run z (ev # evs) s = pool_run z evs (pool_event z ev s)"
    by (simp add: pool_run_def)
  with Cons.IH [OF pool_event_inv [OF Cons.prems]] show ?case by simp
qed

text \<open>The steps of the loop, one by one.\<close>

lemma worker_guard:
  "workerPool_worker k z Worker_IsShutdown wp cs =
     Some (if workerPool_IsShutdown wp cs then Worker_returned else Worker_select, wp, cs)"
  by (simp add: workerPool_worker_def)

lemma worker_select_blocks:
  "workerPool_worker k z Worker_select wp cs = None \<longleftrightarrow>
     buf (taskQueue wp) = [] \<and> \<not> Done cs (wp_ctx wp)"
  by (auto simp: workerPool_worker_def worker_ready_def select_def
           split: option.splits select_case.splits list.splits)

lemma worker_select_live:
  "\<not> Done cs (wp_ctx wp) \<Longrightarrow> buf (taskQueue wp) = future # q \<Longrightarrow>
   workerPool_worker k z Worker_select wp cs =
     Some (Worker_Run future, wp\<lparr>taskQueue := (taskQueue wp)\<lparr>buf := q\<rparr>\<rparr>, cs)"
  by (simp add: workerPool_worker_def worker_ready_def select_def)

lemma worker_select_cancelled:
  assumes d: "Done cs (wp_ctx wp)"
  shows "workerPool_worker k z Worker_select wp cs =
     (case buf (taskQueue wp) of
        [] \<Rightarrow> Some (Worker_returned, wp, cs)
      | future # q \<Rightarrow>
          if even k then Some (Worker_Run future, wp\<lparr>taskQueue := (taskQueue wp)\<lparr>buf := q\<rparr>\<rparr>, cs)
          else Some (Worker_returned, wp, cs))"
proof (cases "buf (taskQueue wp)")
  case Nil
  with d show ?thesis by (simp add: workerPool_worker_def worker_ready_def select_def)
next
  case (Cons future q)
  have r: "worker_ready wp cs = [CaseChan, CaseCtxDone]"
    using d Cons by (simp add: worker_ready_def)
  show ?thesis
  proof (cases "even k")
    case True
    then have "k mod Suc (Suc 0) = 0" by presburger
    with r Cons True show ?thesis by (simp add: workerPool_worker_def select_def)
  next
    case False
    then have "k mod Suc (Suc 0) = Suc 0" by presburger
    with r Cons False show ?thesis by (simp add: workerPool_worker_def select_def)
  qed
qed

lemma worker_Run_step:
  "\<exists>cs'. Future_Run z future cs = Normal cs' \<and>
      workerPool_worker k z (Worker_Run future) wp cs = Some (Worker_IsShutdown, wp, cs') \<and>
      (f_ctx future < length cs \<and> \<not> Future_IsDone future cs \<longrightarrow>
         Future_Get z future cs' =
           Some (case task future cs (f_ctx future) of
                   Normal re \<Rightarrow> re
                 | Panic w \<Rightarrow> (z, Some (ErrorsNew (''task panicked: '' @ w)))))"
proof -
  obtain cs1 where r: "Future_Run z future cs = Normal cs1"
    using Future_Run_Normal [of z future cs] by blast
  have "f_ctx future < length cs \<and> \<not> Future_IsDone future cs \<longrightarrow>
         Future_Get z future cs1 =
           Some (case task future cs (f_ctx future) of
                   Normal re \<Rightarrow> re
                 | Panic w \<Rightarrow> (z, Some (ErrorsNew (''task panicked: '' @ w))))"
    using Future_Run_pending [of future cs z] r by auto
  with r show ?thesis by (simp add: workerPool_worker_def)
qed


text \<open>
  One iteration on a live pool with a Future at the head of the queue: guard, receive,
  \<^verbatim>\<open>future.Run()\<close>, and the worker is back at the guard.
\<close>

lemma worker_iteration:
  assumes live: "\<not> Done cs (wp_ctx wp)" and q: "buf (taskQueue wp) = future # q"
  shows "\<exists>cs'. Future_Run z future cs = Normal cs' \<and>
         pool_run z [Worker_steps 0 k, Worker_steps 0 k, Worker_steps 0 k]
           \<lparr>ps_pool = wp, ps_workers = [Worker_IsShutdown], ps_ctxs = cs\<rparr> =
         \<lparr>ps_pool = wp\<lparr>taskQueue := (taskQueue wp)\<lparr>buf := q\<rparr>\<rparr>,
            ps_workers = [Worker_IsShutdown], ps_ctxs = cs'\<rparr>"
proof -
  let ?wp' = "wp\<lparr>taskQueue := (taskQueue wp)\<lparr>buf := q\<rparr>\<rparr>"
  obtain cs' where r: "Future_Run z future cs = Normal cs'"
    and w: "workerPool_worker k z (Worker_Run future) ?wp' cs = Some (Worker_IsShutdown, ?wp', cs')"
    using worker_Run_step [of z future cs k ?wp'] by blast
  have g: "workerPool_worker k z Worker_IsShutdown wp cs = Some (Worker_select, wp, cs)"
    using live by (simp add: worker_guard IsShutdown_iff)
  have s: "workerPool_worker k z Worker_select wp cs = Some (Worker_Run future, ?wp', cs)"
    using live q by (rule worker_select_live)
  have "pool_run z [Worker_steps 0 k, Worker_steps 0 k, Worker_steps 0 k]
           \<lparr>ps_pool = wp, ps_workers = [Worker_IsShutdown], ps_ctxs = cs\<rparr> =
         \<lparr>ps_pool = ?wp', ps_workers = [Worker_IsShutdown], ps_ctxs = cs'\<rparr>"
    by (simp add: pool_run_def pool_event_def g s w)
  with r show ?thesis by blast
qed

text \<open>
  Counterexample to C3 as stated.  A pool of size 1 accepts a Future into its queue and is
  then shut down.  In a first run the worker has not yet reached its first guard: it finds
  the token cancelled there and returns.  In a second run the worker is already waiting in
  the \<^verbatim>\<open>select\<close>: both cases are ready, and the runtime picks \<^verbatim>\<open>case <-wp.ctx.Done()\<close>.  In
  both runs the worker has returned while the queue holds one Future, and that Future is
  not done.
\<close>

theorem worker_abandons_queue_counterexample:
  "case NewWorkerPool 0 1 [Background, Background] of
     Panic v \<Rightarrow> False
   | Normal (wp, n, cs1) \<Rightarrow>
       (case pool_run (0 :: nat)
               [Submit_called 1 (\<lambda>_ _. Normal (7, None)), Shutdown_called, Worker_steps 0 0]
               (pool_start wp n cs1) of
          s \<Rightarrow>
            (case ps_workers s of [Worker_returned] \<Rightarrow> True | _ \<Rightarrow> False) \<and>
            length (buf (taskQueue (ps_pool s))) = 1 \<and>
            map (\<lambda>f. Future_IsDone f (ps_ctxs s)) (buf (taskQueue (ps_pool s))) = [False]) \<and>
       (case pool_run (0 :: nat)
               [Worker_steps 0 0, Submit_called 1 (\<lambda>_ _. Normal (7, None)), Shutdown_called,
                Worker_steps 0 1]
               (pool_start wp n cs1) of
          s \<Rightarrow>
            (case ps_workers s of [Worker_returned] \<Rightarrow> True | _ \<Rightarrow> False) \<and>
            length (buf (taskQueue (ps_pool s))) = 1 \<and>
            map (\<lambda>f. Future_IsDone f (ps_ctxs s)) (buf (taskQueue (ps_pool s))) = [False])"
  by code_simp

text \<open>
  Claim C3, amended.  A worker returns only when the pool's token is cancelled, and a
  task's panic never ends it.  Step by step: the guard at the top of the loop returns if
  the pool is shut down and goes on to the \<^verbatim>\<open>select\<close> otherwise; the \<^verbatim>\<open>select\<close> blocks
  exactly when the queue is empty and the token is live; with the token live and the
  queue not empty it receives the Future at the head of the queue; with the token
  cancelled and the queue empty it returns; \<^verbatim>\<open>future.Run()\<close> on the received Future is
  exactly \<^verbatim>\<open>Run\<close>, after which the worker is back at the guard and a Future that was
  pending holds the outcome of its task (the results it returned, or the
  \<open>task panicked\<close> error); every step that makes the worker return finds the pool shut
  down; no step ends the worker by a panic.  For whole runs: in a pool none of whose
  workers has returned, after any sequence of \<^verbatim>\<open>Submit\<close> and \<^verbatim>\<open>Shutdown\<close> calls, worker
  steps and context cancellations, a worker that has returned implies that the pool is
  shut down, and no worker has died of a panic; and on a live pool with a Future at the
  head of the queue, one iteration of a worker takes that Future out of the queue, runs
  it, and leaves the worker at the guard.
\<close>

theorem worker_returns_only_on_cancellation:
  "workerPool_worker k z Worker_IsShutdown wp cs =
     Some (if workerPool_IsShutdown wp cs then Worker_returned else Worker_select, wp, cs) \<and>
   (workerPool_worker k z Worker_select wp cs = None \<longleftrightarrow>
      buf (taskQueue wp) = [] \<and> \<not> Done cs (wp_ctx wp)) \<and>
   (\<not> Done cs (wp_ctx wp) \<longrightarrow>
      (\<forall>future q. buf (taskQueue wp) = future # q \<longrightarrow>
         workerPool_worker k z Worker_select wp cs =
           Some (Worker_Run future, wp\<lparr>taskQueue := (taskQueue wp)\<lparr>buf := q\<rparr>\<rparr>, cs))) \<and>
   (Done cs (wp_ctx wp) \<and> buf (taskQueue wp) = [] \<longrightarrow>
      workerPool_worker k z Worker_select wp cs = Some (Worker_returned, wp, cs)) \<and>
   (\<exists>cs'. Future_Run z future cs = Normal cs' \<and>
      workerPool_worker k z (Worker_Run future) wp cs = Some (Worker_IsShutdown, wp, cs') \<and>
      (f_ctx future < length cs \<and> \<not> Future_IsDone future cs \<longrightarrow>
         Future_Get z future cs' =
           Some (case task future cs (f_ctx future) of
                   Normal re \<Rightarrow> re
                 | Panic w \<Rightarrow> (z, Some (ErrorsNew (''task panicked: '' @ w)))))) \<and>
   (\<forall>p wp' cs'. workerPool_worker k z p wp cs = Some (Worker_returned, wp', cs') \<longrightarrow>
      workerPool_IsShutdown wp cs) \<and>
   (\<forall>p v wp' cs'. workerPool_worker k z p wp cs \<noteq> Some (Worker_crashed v, wp', cs')) \<and>
   ((\<forall>p \<in> set (ps_workers s). p \<noteq> Worker_returned \<and> (\<forall>v. p \<noteq> Worker_crashed v)) \<longrightarrow>
      (\<forall>p \<in> set (ps_workers (pool_run z evs s)).
         (p = Worker_returned \<longrightarrow>
            workerPool_IsShutdown (ps_pool (pool_run z evs s)) (ps_ctxs (pool_run z evs s))) \<and>
         (\<forall>v. p \<noteq> Worker_crashed v))) \<and>
   (\<not> Done cs (wp_ctx wp) \<and> buf (taskQueue wp) = future # q \<longrightarrow>
      (\<exists>cs'. Future_Run z future cs = Normal cs' \<and>
         pool_run z [Worker_steps 0 k, Worker_steps 0 k, Worker_steps 0 k]
           \<lparr>ps_pool = wp, ps_workers = [Worker_IsShutdown], ps_ctxs = cs\<rparr> =
         \<lparr>ps_pool = wp\<lparr>taskQueue := (taskQueue wp)\<lparr>buf := q\<rparr>\<rparr>,
            ps_workers = [Worker_IsShutdown], ps_ctxs = cs'\<rparr>))"
proof (intro conjI)
  show "workerPool_worker k z Worker_IsShutdown wp cs =
     Some (if workerPool_IsShutdown wp cs then Worker_returned else Worker_select, wp, cs)"
    by (rule worker_guard)
  show "workerPool_worker k z Worker_select wp cs = None \<longleftrightarrow>
      buf (taskQueue wp) = [] \<and> \<not> Done cs (wp_ctx wp)"
    by (rule worker_select_blocks)
  show "\<not> Done cs (wp_ctx wp) \<longrightarrow>
      (\<forall>future q. buf (taskQueue wp) = future # q \<longrightarrow>
         workerPool_worker k z Worker_select wp cs =
           Some (Worker_Run future, wp\<lparr>taskQueue := (taskQueue wp)\<lparr>buf := q\<rparr>\<rparr>, cs))"
    using worker_select_live [of cs wp _ _ k z] by blast
  show "Done cs (wp_ctx wp) \<and> buf (taskQueue wp) = [] \<longrightarrow>
      workerPool_worker k z Worker_select wp cs = Some (Worker_returned, wp, cs)"
    using worker_select_cancelled [of cs wp k z] by simp
  show "\<exists>cs'. Future_Run z future cs = Normal cs' \<and>
      workerPool_worker k z (Worker_Run future) wp cs = Some (Worker_IsShutdown, wp, cs') \<and>
      (f_ctx future < length cs \<and> \<not> Future_IsDone future cs \<longrightarrow>
         Future_Get z future cs' =
           Some (case task future cs (f_ctx future) of
                   Normal re \<Rightarrow> re
                 | Panic w \<Rightarrow> (z, Some (ErrorsNew (''task panicked: '' @ w)))))"
    by (rule worker_Run_step)
  show "\<forall>p wp' cs'. workerPool_worker k z p wp cs = Some (Worker_returned, wp', cs') \<longrightarrow>
      workerPool_IsShutdown wp cs"
    using worker_step_returned [of k z _ wp cs] by blast
  show "\<forall>p v wp' cs'. workerPool_worker k z p wp cs \<noteq> Some (Worker_crashed v, wp', cs')"
    using worker_step_not_crashed [of k z _ wp cs] by blast
  show "(\<forall>p \<in> set (ps_workers s). p \<noteq> Worker_returned \<and> (\<forall>v. p \<noteq> Worker_crashed v)) \<longrightarrow>
      (\<forall>p \<in> set (ps_workers (pool_run z evs s)).
         (p = Worker_returned \<longrightarrow>
            workerPool_IsShutdown (ps_pool (pool_run z evs s)) (ps_ctxs (pool_run z evs s))) \<and>
         (\<forall>v. p \<noteq> Worker_crashed v))"
  proof
    assume a: "\<forall>p \<in> set (ps_workers s). p \<noteq> Worker_returned \<and> (\<forall>v. p \<noteq> Worker_crashed v)"
    then have "\<forall>p \<in> set (ps_workers s).
      (p = Worker_returned \<longrightarrow> workerPool_IsShutdown (ps_pool s) (ps_ctxs s)) \<and>
      (\<forall>v. p \<noteq> Worker_crashed v)"
      by blast
    then show "\<forall>p \<in> set (ps_workers (pool_run z evs s)).
         (p = Worker_returned \<longrightarrow>
            workerPool_IsShutdown (ps_pool (pool_run z evs s)) (ps_ctxs (pool_run z evs s))) \<and>
         (\<forall>v. p \<noteq> Worker_crashed v)"
      by (rule pool_run_inv)
  qed
  show "\<not> Done cs (wp_ctx wp) \<and> buf (taskQueue wp) = future # q \<longrightarrow>
      (\<exists>cs'. Future_Run z future cs = Normal cs' \<and>
         pool_run z [Worker_steps 0 k, Worker_steps 0 k, Worker_steps 0 k]
           \<lparr>ps_pool = wp, ps_workers = [Worker_IsShutdown], ps_ctxs = cs\<rparr> =
         \<lparr>ps_pool = wp\<lparr>taskQueue := (taskQueue wp)\<lparr>buf := q\<rparr>\<rparr>,
            ps_workers = [Worker_IsShutdown], ps_ctxs = cs'\<rparr>)"
    using worker_iteration [of cs wp future q z k] by blast
qed

text \<open>
  Witness for C3.  On a pool whose token is cancelled and whose queue is empty the
  \<^verbatim>\<open>select\<close> returns.  On a live pool with two queued Futures, one whose task returns
  \<open>(7, nil)\<close> and one whose task panics, the \<^verbatim>\<open>select\<close> receives the first, and
  \<^verbatim>\<open>Run\<close> leaves it done with \<open>(7, nil)\<close>; with the queue empty the \<^verbatim>\<open>select\<close> blocks.  In
  the run, the worker runs both Futures and waits, the pool is shut down, and the worker
  returns from the \<^verbatim>\<open>select\<close>.  One iteration takes the first Future out of the queue and
  leaves the worker at the guard.
\<close>

theorem worker_returns_only_on_cancellation_witness:
  "Done ([\<lparr>parent = None, err = Some Canceled, cause = Some Canceled\<rparr>, Background] :: nat ctxs) 0 \<and>
   workerPool_worker 0 (0 :: nat) Worker_select
     \<lparr>wp_ctx = 0, wp_size = 1, taskQueue = \<lparr>buf = [], cap = 2, closed = False\<rparr>\<rparr>
     [\<lparr>parent = None, err = Some Canceled, cause = Some Canceled\<rparr>, Background] =
     Some (Worker_returned, \<lparr>wp_ctx = 0, wp_size = 1, taskQueue = \<lparr>buf = [], cap = 2, closed = False\<rparr>\<rparr>,
           [\<lparr>parent = None, err = Some Canceled, cause = Some Canceled\<rparr>, Background]) \<and>
   workerPool_IsShutdown \<lparr>wp_ctx = 0, wp_size = 1, taskQueue = \<lparr>buf = [], cap = 2, closed = False\<rparr>\<rparr>
     ([\<lparr>parent = None, err = Some Canceled, cause = Some Canceled\<rparr>, Background] :: nat ctxs) \<and>
   \<not> Done ([Background, Background, \<lparr>parent = Some 1, err = None, cause = None\<rparr>, \<lparr>parent = Some 1, err = None, cause = None\<rparr>] :: nat ctxs) 0 \<and>
   workerPool_worker 0 (0 :: nat) Worker_select
     \<lparr>wp_ctx = 0, wp_size = 1, taskQueue = \<lparr>buf = [\<lparr>f_ctx = 2, task = (\<lambda>_ _. Normal (7 :: nat, None))\<rparr>, \<lparr>f_ctx = 3, task = (\<lambda>_ _. Panic ''boom'')\<rparr>], cap = 2, closed = False\<rparr>\<rparr>
     [Background, Background, \<lparr>parent = Some 1, err = None, cause = None\<rparr>, \<lparr>parent = Some 1, err = None, cause = None\<rparr>] =
     Some (Worker_Run \<lparr>f_ctx = 2, task = (\<lambda>_ _. Normal (7 :: nat, None))\<rparr>,
           \<lparr>wp_ctx = 0, wp_size = 1, taskQueue = \<lparr>buf = [\<lparr>f_ctx = 3, task = (\<lambda>_ _. Panic ''boom'')\<rparr>], cap = 2, closed = False\<rparr>\<rparr>,
           [Background, Background, \<lparr>parent = Some 1, err = None, cause = None\<rparr>, \<lparr>parent = Some 1, err = None, cause = None\<rparr>]) \<and>
   workerPool_worker 0 (0 :: nat) Worker_select
     \<lparr>wp_ctx = 0, wp_size = 1, taskQueue = \<lparr>buf = [], cap = 2, closed = False\<rparr>\<rparr>
     [Background, Background, \<lparr>parent = Some 1, err = None, cause = None\<rparr>, \<lparr>parent = Some 1, err = None, cause = None\<rparr>] = None \<and>
   (\<exists>cs'. workerPool_worker 0 (0 :: nat) (Worker_Run \<lparr>f_ctx = 2, task = (\<lambda>_ _. Normal (7 :: nat, None))\<rparr>)
            \<lparr>wp_ctx = 0, wp_size = 1, taskQueue = \<lparr>buf = [\<lparr>f_ctx = 3, task = (\<lambda>_ _. Panic ''boom'')\<rparr>], cap = 2, closed = False\<rparr>\<rparr>
            [Background, Background, \<lparr>parent = Some 1, err = None, cause = None\<rparr>, \<lparr>parent = Some 1, err = None, cause = None\<rparr>] =
            Some (Worker_IsShutdown, \<lparr>wp_ctx = 0, wp_size = 1, taskQueue = \<lparr>buf = [\<lparr>f_ctx = 3, task = (\<lambda>_ _. Panic ''boom'')\<rparr>], cap = 2, closed = False\<rparr>\<rparr>, cs') \<and>
          Future_Get 0 \<lparr>f_ctx = 2, task = (\<lambda>_ _. Normal (7 :: nat, None))\<rparr> cs' = Some (7, None)) \<and>
   ps_workers (pool_start \<lparr>wp_ctx = 0, wp_size = 1, taskQueue = \<lparr>buf = [\<lparr>f_ctx = 2, task = (\<lambda>_ _. Normal (7 :: nat, None))\<rparr>, \<lparr>f_ctx = 3, task = (\<lambda>_ _. Panic ''boom'')\<rparr>], cap = 2, closed = False\<rparr>\<rparr> 1
       ([Background, Background, \<lparr>parent = Some 1, err = None, cause = None\<rparr>, \<lparr>parent = Some 1, err = None, cause = None\<rparr>] :: nat ctxs)) = [Worker_IsShutdown] \<and>
   (case ps_workers
       (pool_run 0
          [Worker_steps 0 0, Worker_steps 0 0, Worker_steps 0 0, Worker_steps 0 0,
           Worker_steps 0 0, Worker_steps 0 0, Worker_steps 0 0, Shutdown_called,
           Worker_steps 0 0]
          (pool_start \<lparr>wp_ctx = 0, wp_size = 1, taskQueue = \<lparr>buf = [\<lparr>f_ctx = 2, task = (\<lambda>_ _. Normal (7 :: nat, None))\<rparr>, \<lparr>f_ctx = 3, task = (\<lambda>_ _. Panic ''boom'')\<rparr>], cap = 2, closed = False\<rparr>\<rparr> 1
             ([Background, Background, \<lparr>parent = Some 1, err = None, cause = None\<rparr>, \<lparr>parent = Some 1, err = None, cause = None\<rparr>] :: nat ctxs))) of
      [Worker_returned] \<Rightarrow> True | _ \<Rightarrow> False) \<and>
   workerPool_IsShutdown
     (ps_pool (pool_run 0
          [Worker_steps 0 0, Worker_steps 0 0, Worker_steps 0 0, Worker_steps 0 0,
           Worker_steps 0 0, Worker_steps 0 0, Worker_steps 0 0, Shutdown_called,
           Worker_steps 0 0]
          (pool_start \<lparr>wp_ctx = 0, wp_size = 1, taskQueue = \<lparr>buf = [\<lparr>f_ctx = 2, task = (\<lambda>_ _. Normal (7 :: nat, None))\<rparr>, \<lparr>f_ctx = 3, task = (\<lambda>_ _. Panic ''boom'')\<rparr>], cap = 2, closed = False\<rparr>\<rparr> 1
             ([Background, Background, \<lparr>parent = Some 1, err = None, cause = None\<rparr>, \<lparr>parent = Some 1, err = None, cause = None\<rparr>] :: nat ctxs))))
     (ps_ctxs (pool_run 0
          [Worker_steps 0 0, Worker_steps 0 0, Worker_steps 0 0, Worker_steps 0 0,
           Worker_steps 0 0, Worker_steps 0 0, Worker_steps 0 0, Shutdown_called,
           Worker_steps 0 0]
          (pool_start \<lparr>wp_ctx = 0, wp_size = 1, taskQueue = \<lparr>buf = [\<lparr>f_ctx = 2, task = (\<lambda>_ _. Normal (7 :: nat, None))\<rparr>, \<lparr>f_ctx = 3, task = (\<lambda>_ _. Panic ''boom'')\<rparr>], cap = 2, closed = False\<rparr>\<rparr> 1
             ([Background, Background, \<lparr>parent = Some 1, err = None, cause = None\<rparr>, \<lparr>parent = Some 1, err = None, cause = None\<rparr>] :: nat ctxs)))) \<and>
   ps_workers
     (pool_run 0 [Worker_steps 0 0, Worker_steps 0 0, Worker_steps 0 0]
        \<lparr>ps_pool = \<lparr>wp_ctx = 0, wp_size = 1, taskQueue = \<lparr>buf = [\<lparr>f_ctx = 2, task = (\<lambda>_ _. Normal (7 :: nat, None))\<rparr>, \<lparr>f_ctx = 3, task = (\<lambda>_ _. Panic ''boom'')\<rparr>], cap = 2, closed = False\<rparr>\<rparr>,
           ps_workers = [Worker_IsShutdown],
           ps_ctxs = ([Background, Background, \<lparr>parent = Some 1, err = None, cause = None\<rparr>, \<lparr>parent = Some 1, err = None, cause = None\<rparr>] :: nat ctxs)\<rparr>) = [Worker_IsShutdown] \<and>
   ps_pool
     (pool_run 0 [Worker_steps 0 0, Worker_steps 0 0, Worker_steps 0 0]
        \<lparr>ps_pool = \<lparr>wp_ctx = 0, wp_size = 1, taskQueue = \<lparr>buf = [\<lparr>f_ctx = 2, task = (\<lambda>_ _. Normal (7 :: nat, None))\<rparr>, \<lparr>f_ctx = 3, task = (\<lambda>_ _. Panic ''boom'')\<rparr>], cap = 2, closed = False\<rparr>\<rparr>,
           ps_workers = [Worker_IsShutdown],
           ps_ctxs = ([Background, Background, \<lparr>parent = Some 1, err = None, cause = None\<rparr>, \<lparr>parent = Some 1, err = None, cause = None\<rparr>] :: nat ctxs)\<rparr>) =
     \<lparr>wp_ctx = 0, wp_size = 1, taskQueue = \<lparr>buf = [\<lparr>f_ctx = 3, task = (\<lambda>_ _. Panic ''boom'')\<rparr>], cap = 2, closed = False\<rparr>\<rparr>"
proof -
  let ?f1 = "\<lparr>f_ctx = 2, task = (\<lambda>_ _. Normal (7 :: nat, None))\<rparr>"
  let ?cs = "[Background, Background, \<lparr>parent = Some 1, err = None, cause = None\<rparr>, \<lparr>parent = Some 1, err = None, cause = None\<rparr>] :: nat ctxs"
  let ?wp12 = "\<lparr>wp_ctx = 0, wp_size = 1, taskQueue = \<lparr>buf = [\<lparr>f_ctx = 2, task = (\<lambda>_ _. Normal (7 :: nat, None))\<rparr>, \<lparr>f_ctx = 3, task = (\<lambda>_ _. Panic ''boom'')\<rparr>], cap = 2, closed = False\<rparr>\<rparr> :: nat workerPool"
  let ?wp2 = "\<lparr>wp_ctx = 0, wp_size = 1, taskQueue = \<lparr>buf = [\<lparr>f_ctx = 3, task = (\<lambda>_ _. Panic ''boom'')\<rparr>], cap = 2, closed = False\<rparr>\<rparr> :: nat workerPool"
  let ?wp0 = "\<lparr>wp_ctx = 0, wp_size = 1, taskQueue = \<lparr>buf = [], cap = 2, closed = False\<rparr>\<rparr> :: nat workerPool"
  let ?evs = "[Worker_steps 0 0, Worker_steps 0 0, Worker_steps 0 0, Worker_steps 0 0,
           Worker_steps 0 0, Worker_steps 0 0, Worker_steps 0 0, Shutdown_called,
           Worker_steps 0 0] :: nat pool_event list"
  let ?s = "pool_start ?wp12 1 ?cs"
  note t12 = worker_returns_only_on_cancellation
    [where k = 0 and z = 0 and wp = ?wp12 and cs = ?cs and future = ?f1 and s = ?s and evs = ?evs]
  note t2 = worker_returns_only_on_cancellation
    [where k = 0 and z = 0 and wp = ?wp2 and cs = ?cs and future = ?f1 and s = ?s and evs = ?evs]
  note t0 = worker_returns_only_on_cancellation
    [where k = 0 and z = 0 and wp = ?wp0 and cs = ?cs and future = ?f1 and s = ?s and evs = ?evs]
  let ?csc = "[\<lparr>parent = None, err = Some Canceled, cause = Some Canceled\<rparr>, Background] :: nat ctxs"
  note tc = worker_returns_only_on_cancellation
    [where k = 0 and z = 0 and wp = ?wp0 and cs = ?csc and future = ?f1 and s = ?s and evs = ?evs]
  have dead: "Done ?csc 0"
    by (simp add: Done_def Err_def)
  have c: "workerPool_worker 0 0 Worker_select ?wp0 ?csc = Some (Worker_returned, ?wp0, ?csc)"
    by (rule tc [THEN conjunct2, THEN conjunct2, THEN conjunct2, THEN conjunct1, THEN mp])
      (use dead in simp)
  have d: "workerPool_IsShutdown ?wp0 ?csc"
    using tc [THEN conjunct2, THEN conjunct2, THEN conjunct2, THEN conjunct2, THEN conjunct2,
      THEN conjunct1] c by blast
  have live: "\<not> Done ?cs 0"
    by (simp add: Done_def Err_def Background_def)
  have a: "workerPool_worker 0 0 Worker_select ?wp12 ?cs = Some (Worker_Run ?f1, ?wp2, ?cs)"
    using t12 [THEN conjunct2, THEN conjunct2, THEN conjunct1, THEN mp, OF _, THEN spec, THEN spec, THEN mp,
      of ?f1 "[\<lparr>f_ctx = 3, task = (\<lambda>_ _. Panic ''boom'')\<rparr>]"] live
    by simp
  have b: "workerPool_worker 0 0 Worker_select ?wp0 ?cs = None"
    by (rule t0 [THEN conjunct2, THEN conjunct1, THEN iffD2]) (use live in simp)
  have pend: "f_ctx ?f1 < length ?cs \<and> \<not> Future_IsDone ?f1 ?cs"
    by (simp add: Future_IsDone_def Err_def)
  from t2 [THEN conjunct2, THEN conjunct2, THEN conjunct2, THEN conjunct2, THEN conjunct1]
  obtain cs' where r: "workerPool_worker 0 0 (Worker_Run ?f1) ?wp2 ?cs = Some (Worker_IsShutdown, ?wp2, cs')"
    and g: "f_ctx ?f1 < length ?cs \<and> \<not> Future_IsDone ?f1 ?cs \<longrightarrow>
         Future_Get 0 ?f1 cs' =
           Some (case task ?f1 ?cs (f_ctx ?f1) of
                   Normal re \<Rightarrow> re
                 | Panic w \<Rightarrow> (0, Some (ErrorsNew (''task panicked: '' @ w))))"
    by blast
  from g pend have g': "Future_Get 0 ?f1 cs' = Some (7, None)" by simp
  have st: "ps_workers ?s = [Worker_IsShutdown]"
    by (simp add: pool_start_def)
  have fin: "case ps_workers (pool_run 0 ?evs ?s) of [Worker_returned] \<Rightarrow> True | _ \<Rightarrow> False"
    by code_simp
  then have mem: "Worker_returned \<in> set (ps_workers (pool_run 0 ?evs ?s))"
    by (auto split: list.splits worker_pc.splits)
  have hyp: "\<forall>p \<in> set (ps_workers ?s). p \<noteq> Worker_returned \<and> (\<forall>v. p \<noteq> Worker_crashed v)"
    by (simp add: pool_start_def)
  from t12 [THEN conjunct2, THEN conjunct2, THEN conjunct2, THEN conjunct2, THEN conjunct2,
      THEN conjunct2, THEN conjunct2, THEN conjunct1, THEN mp, OF hyp] mem
  have sh: "workerPool_IsShutdown (ps_pool (pool_run 0 ?evs ?s)) (ps_ctxs (pool_run 0 ?evs ?s))"
    by blast
  have qu: "buf (taskQueue ?wp12) = ?f1 # [\<lparr>f_ctx = 3, task = (\<lambda>_ _. Panic ''boom'')\<rparr>]"
    by simp
  from t12 [where q = "[\<lparr>f_ctx = 3, task = (\<lambda>_ _. Panic ''boom'')\<rparr>]", THEN conjunct2, THEN conjunct2,
      THEN conjunct2, THEN conjunct2, THEN conjunct2, THEN conjunct2, THEN conjunct2, THEN conjunct2,
      THEN mp, OF conjI, OF _ qu] live
  obtain cs2 where it: "pool_run 0 [Worker_steps 0 0, Worker_steps 0 0, Worker_steps 0 0]
        \<lparr>ps_pool = ?wp12, ps_workers = [Worker_IsShutdown], ps_ctxs = ?cs\<rparr> =
      \<lparr>ps_pool = ?wp12\<lparr>taskQueue := (taskQueue ?wp12)\<lparr>buf := [\<lparr>f_ctx = 3, task = (\<lambda>_ _. Panic ''boom'')\<rparr>]\<rparr>\<rparr>,
         ps_workers = [Worker_IsShutdown], ps_ctxs = cs2\<rparr>"
    by auto
  have i1: "ps_workers (pool_run 0 [Worker_steps 0 0, Worker_steps 0 0, Worker_steps 0 0]
        \<lparr>ps_pool = ?wp12, ps_workers = [Worker_IsShutdown], ps_ctxs = ?cs\<rparr>) = [Worker_IsShutdown]"
    using it by simp
  have i2: "ps_pool (pool_run 0 [Worker_steps 0 0, Worker_steps 0 0, Worker_steps 0 0]
        \<lparr>ps_pool = ?wp12, ps_workers = [Worker_IsShutdown], ps_ctxs = ?cs\<rparr>) = ?wp2"
    using it by simp
  from dead c d live a b r g' st fin sh i1 i2 show ?thesis by blast
qed

section \<open>Properties of the cache refresher\<close>

lemma cache_event_Returned:
  "pc g = Returned \<or> pc g = Ticker_panicked \<Longrightarrow> fst (cache_event c ev (g, cs)) = g"
  by (cases ev) (auto simp: cache_event_def pooling_def)

lemma cache_run_Returned:
  "pc g = Returned \<or> pc g = Ticker_panicked \<Longrightarrow> fst (cache_run c evs (g, cs)) = g"
proof (induction evs arbitrary: cs)
  case Nil
  then show ?case by (simp add: cache_run_def)
next
  case (Cons ev evs)
  obtain g1 cs1 where s: "cache_event c ev (g, cs) = (g1, cs1)"
    by (cases "cache_event c ev (g, cs)")
  with cache_event_Returned [OF Cons.prems, of c ev cs] have "g1 = g" by simp
  with Cons s show ?case by (simp add: cache_run_def)
qed

text \<open>
  Counterexample to C9 as stated.  The goroutine makes its first refresh and reaches the
  \<^verbatim>\<open>select\<close>; the ticker fires; the context is cancelled.  Cancellation is now
  observable at the wait point, but the tick is ready as well, and when the runtime picks
  the tick case the goroutine calls \<^verbatim>\<open>refresh()\<close> once more and stays in the loop.
\<close>

theorem refresh_after_cancellation_counterexample:
  "case NewCache 0 30 [Background :: nat cancelCtx] of
     (c, g0, cs0) \<Rightarrow>
       (case cache_run c [Step 0, TickFires, CancelCtx (c_ctx c)] (g0, cs0) of
          (g1, cs1) \<Rightarrow>
            Done cs1 (c_ctx c) \<and> pc g1 = Ticking \<and> refreshes g1 = 1 \<and>
            (case cache_run c [Step 0] (g1, cs1) of
               (g2, cs2) \<Rightarrow> refreshes g2 = 2 \<and> pc g2 = Ticking))"
  by code_simp

text \<open>
  Claim C9, amended.  The refresher calls its job once before \<^verbatim>\<open>time.NewTicker\<close>, hence
  before the first wait, and enters the loop if the interval is positive (for an interval
  that is not positive \<^verbatim>\<open>time.NewTicker\<close> panics after that first call, and the loop is
  never entered).  In the loop it blocks while no tick is waiting and the token is live;
  it calls the job once for a tick it receives; with the token cancelled and no tick
  waiting it returns without calling the job.  A step calls the job at most once, and a
  step that returns calls it not at all and happens only under a cancelled token.  After
  the return, and after the panic, nothing calls the job again.  (A tick that waits
  together with the cancellation may still be served: the \<^verbatim>\<open>select\<close> chooses among ready
  cases.)
\<close>

theorem pooling_refresh_discipline:
  "(pc g = Started \<longrightarrow>
      pooling k c g cs =
        Some (g\<lparr>refreshes := Suc (refreshes g),
                 pc := (if refreshInterval c \<le>s 0 then Ticker_panicked else Ticking)\<rparr>)) \<and>
   (pc g = Ticking \<and> buf (ticker_C g) = [] \<longrightarrow>
      pooling k c g cs = (if Done cs (c_ctx c) then Some (g\<lparr>pc := Returned\<rparr>) else None)) \<and>
   (pc g = Ticking \<and> buf (ticker_C g) \<noteq> [] \<and> \<not> Done cs (c_ctx c) \<longrightarrow>
      pooling k c g cs =
        Some (g\<lparr>ticker_C := (ticker_C g)\<lparr>buf := tl (buf (ticker_C g))\<rparr>,
                 refreshes := Suc (refreshes g)\<rparr>)) \<and>
   (\<forall>g'. pooling k c g cs = Some g' \<longrightarrow>
      refreshes g' \<le> Suc (refreshes g) \<and>
      (pc g' = Returned \<longrightarrow> refreshes g' = refreshes g \<and> Done cs (c_ctx c))) \<and>
   (pc g = Returned \<or> pc g = Ticker_panicked \<longrightarrow>
      pooling k c g cs = None \<and> (\<forall>evs. fst (cache_run c evs (g, cs)) = g))"
proof -
  have a: "pc g = Started \<longrightarrow>
      pooling k c g cs =
        Some (g\<lparr>refreshes := Suc (refreshes g),
                 pc := (if refreshInterval c \<le>s 0 then Ticker_panicked else Ticking)\<rparr>)"
    by (simp add: pooling_def refresh_def)
  have b: "pc g = Ticking \<and> buf (ticker_C g) = [] \<longrightarrow>
      pooling k c g cs = (if Done cs (c_ctx c) then Some (g\<lparr>pc := Returned\<rparr>) else None)"
    by (simp add: pooling_def pooling_ready_def select_def)
  have c: "pc g = Ticking \<and> buf (ticker_C g) \<noteq> [] \<and> \<not> Done cs (c_ctx c) \<longrightarrow>
      pooling k c g cs =
        Some (g\<lparr>ticker_C := (ticker_C g)\<lparr>buf := tl (buf (ticker_C g))\<rparr>,
                 refreshes := Suc (refreshes g)\<rparr>)"
    by (simp add: pooling_def pooling_ready_def select_def refresh_def)
  have d: "\<forall>g'. pooling k c g cs = Some g' \<longrightarrow>
      refreshes g' \<le> Suc (refreshes g) \<and>
      (pc g' = Returned \<longrightarrow> refreshes g' = refreshes g \<and> Done cs (c_ctx c))"
  proof (intro allI impI)
    fix g' assume s: "pooling k c g cs = Some g'"
    show "refreshes g' \<le> Suc (refreshes g) \<and>
      (pc g' = Returned \<longrightarrow> refreshes g' = refreshes g \<and> Done cs (c_ctx c))"
    proof (cases "pc g")
      case Started
      with s show ?thesis by (auto simp: pooling_def refresh_def split: if_splits)
    next
      case Ticking
      show ?thesis
      proof (cases "select (pooling_ready c g cs) k")
        case None
        with s Ticking show ?thesis by (simp add: pooling_def)
      next
        case (Some x)
        from select_member [OF Some] have m: "x = CaseDone \<longrightarrow> Done cs (c_ctx c)"
          by (auto simp: pooling_ready_def split: if_splits)
        from s Ticking Some m show ?thesis
          by (cases x) (auto simp: pooling_def refresh_def)
      qed
    next
      case Returned
      with s show ?thesis by (simp add: pooling_def)
    next
      case Ticker_panicked
      with s show ?thesis by (simp add: pooling_def)
    qed
  qed
  have e: "pc g = Returned \<or> pc g = Ticker_panicked \<longrightarrow>
      pooling k c g cs = None \<and> (\<forall>evs. fst (cache_run c evs (g, cs)) = g)"
    using cache_run_Returned [of g c _ cs] by (auto simp: pooling_def)
  from a b c d e show ?thesis by blast
qed

text \<open>
  Witness for C9: the first step with an interval of 0 and with an interval of 30, the
  wait with and without cancellation, a tick under a live token, and events after the
  return.
\<close>

theorem pooling_refresh_discipline_witness:
  "pooling 0 \<lparr>c_ctx = 1, refreshInterval = 0\<rparr>
     \<lparr>pc = Started, refreshes = 0, ticker_C = \<lparr>buf = [], cap = 1, closed = False\<rparr>\<rparr>
     [Background :: nat cancelCtx, \<lparr>parent = Some 0, err = None, cause = None\<rparr>] =
     Some \<lparr>pc = Ticker_panicked, refreshes = 1, ticker_C = \<lparr>buf = [], cap = 1, closed = False\<rparr>\<rparr> \<and>
   pooling 0 \<lparr>c_ctx = 1, refreshInterval = 30\<rparr>
     \<lparr>pc = Started, refreshes = 0, ticker_C = \<lparr>buf = [], cap = 1, closed = False\<rparr>\<rparr>
     [Background :: nat cancelCtx, \<lparr>parent = Some 0, err = None, cause = None\<rparr>] =
     Some \<lparr>pc = Ticking, refreshes = 1, ticker_C = \<lparr>buf = [], cap = 1, closed = False\<rparr>\<rparr> \<and>
   pooling 0 \<lparr>c_ctx = 1, refreshInterval = 30\<rparr>
     \<lparr>pc = Ticking, refreshes = 1, ticker_C = \<lparr>buf = [], cap = 1, closed = False\<rparr>\<rparr>
     [Background :: nat cancelCtx, \<lparr>parent = Some 0, err = None, cause = None\<rparr>] = None \<and>
   pooling 0 \<lparr>c_ctx = 1, refreshInterval = 30\<rparr>
     \<lparr>pc = Ticking, refreshes = 1, ticker_C = \<lparr>buf = [], cap = 1, closed = False\<rparr>\<rparr>
     [Background :: nat cancelCtx, \<lparr>parent = Some 0, err = Some Canceled, cause = Some Canceled\<rparr>] =
     Some \<lparr>pc = Returned, refreshes = 1, ticker_C = \<lparr>buf = [], cap = 1, closed = False\<rparr>\<rparr> \<and>
   pooling 0 \<lparr>c_ctx = 1, refreshInterval = 30\<rparr>
     \<lparr>pc = Ticking, refreshes = 1, ticker_C = \<lparr>buf = [()], cap = 1, closed = False\<rparr>\<rparr>
     [Background :: nat cancelCtx, \<lparr>parent = Some 0, err = None, cause = None\<rparr>] =
     Some \<lparr>pc = Ticking, refreshes = 2, ticker_C = \<lparr>buf = [], cap = 1, closed = False\<rparr>\<rparr> \<and>
   fst (cache_run \<lparr>c_ctx = 1, refreshInterval = 30\<rparr> [TickFires, Step 0, Step 1]
     (\<lparr>pc = Returned, refreshes = 1, ticker_C = \<lparr>buf = [], cap = 1, closed = False\<rparr>\<rparr>,
      [Background :: nat cancelCtx, \<lparr>parent = Some 0, err = Some Canceled, cause = Some Canceled\<rparr>])) =
     \<lparr>pc = Returned, refreshes = 1, ticker_C = \<lparr>buf = [], cap = 1, closed = False\<rparr>\<rparr>"
  using
    pooling_refresh_discipline [of
      "\<lparr>pc = Started, refreshes = 0, ticker_C = \<lparr>buf = [], cap = 1, closed = False\<rparr>\<rparr>" 0
      "\<lparr>c_ctx = 1, refreshInterval = 0\<rparr>"
      "[Background :: nat cancelCtx, \<lparr>parent = Some 0, err = None, cause = None\<rparr>]"]
    pooling_refresh_discipline [of
      "\<lparr>pc = Started, refreshes = 0, ticker_C = \<lparr>buf = [], cap = 1, closed = False\<rparr>\<rparr>" 0
      "\<lparr>c_ctx = 1, refreshInterval = 30\<rparr>"
      "[Background :: nat cancelCtx, \<lparr>parent = Some 0, err = None, cause = None\<rparr>]"]
    pooling_refresh_discipline [of
      "\<lparr>pc = Ticking, refreshes = 1, ticker_C = \<lparr>buf = [], cap = 1, closed = False\<rparr>\<rparr>" 0
      "\<lparr>c_ctx = 1, refreshInterval = 30\<rparr>"
      "[Background :: nat cancelCtx, \<lparr>parent = Some 0, err = None, cause = None\<rparr>]"]
    pooling_refresh_discipline [of
      "\<lparr>pc = Ticking, refreshes = 1, ticker_C = \<lparr>buf = [], cap = 1, closed = False\<rparr>\<rparr>" 0
      "\<lparr>c_ctx = 1, refreshInterval = 30\<rparr>"
      "[Background :: nat cancelCtx, \<lparr>parent = Some 0, err = Some Canceled, cause = Some Canceled\<rparr>]"]
    pooling_refresh_discipline [of
      "\<lparr>pc = Ticking, refreshes = 1, ticker_C = \<lparr>buf = [()], cap = 1, closed = False\<rparr>\<rparr>" 0
      "\<lparr>c_ctx = 1, refreshInterval = 30\<rparr>"
      "[Background :: nat cancelCtx, \<lparr>parent = Some 0, err = None, cause = None\<rparr>]"]
    pooling_refresh_discipline [of
      "\<lparr>pc = Returned, refreshes = 1, ticker_C = \<lparr>buf = [], cap = 1, closed = False\<rparr>\<rparr>" 0
      "\<lparr>c_ctx = 1, refreshInterval = 30\<rparr>"
      "[Background :: nat cancelCtx, \<lparr>parent = Some 0, err = Some Canceled, cause = Some Canceled\<rparr>]"]
  by (simp add: Done_def Err_def word_sle_eq)


section \<open>Properties of Application\<close>

text \<open>
  Claim C7.  \<^verbatim>\<open>InitApplication\<close> constructs the database, the cache, the worker pool,
  the controller and the HTTP server, in this order.  On the application it returns,
  every invocation of \<^verbatim>\<open>Shutdown\<close> shuts down the HTTP server, then the worker pool, then
  the cache, then the database, and nothing else: the reverse of the construction order
  (the controller has no \<^verbatim>\<open>Shutdown\<close>).
\<close>

theorem Application_Shutdown_order:
  "\<exists>app log1.
     InitApplication srvAddr dbAddr [] = (app, log1) \<and>
     constructed log1 = [Database, Cache, WorkerPool, Controller, HttpServer] \<and>
     (\<forall>log. Application_Shutdown app log =
        Normal (log @ [Shutdown HttpServer, Shutdown WorkerPool, Shutdown Cache, Shutdown Database])) \<and>
     (\<exists>log2. Application_Shutdown app log1 = Normal log2 \<and>
        torn_down log2 = rev (removeAll Controller (constructed log2)))"
  by (simp add: InitApplication_def Application_Shutdown_def)


section \<open>Properties of ConnPool\<close>

lemma system_run_reachable:
  "reachable s0 s \<Longrightarrow> system_run sch s = Some s' \<Longrightarrow> reachable s0 s'"
proof (induction sch arbitrary: s)
  case Nil
  then show ?case by simp
next
  case (Cons a sch)
  obtain i ev where a: "a = (i, ev)" by (cases a)
  from Cons.prems(2) a obtain s1 where s1: "system_step i ev s = Some s1"
    and r: "system_run sch s1 = Some s'"
    by (auto split: option.splits)
  from Cons.prems(1) s1 have "reachable s0 s1" by (rule reachable.step)
  from Cons.IH [OF this r] show ?case .
qed

lemma sum_list_update_nat:
  "i < length xs \<Longrightarrow>
   sum_list (map f (xs[i := y])) + f (xs ! i) = sum_list (map f xs) + (f y :: nat)"
proof (induction xs arbitrary: i)
  case Nil
  then show ?case by simp
next
  case (Cons x xs)
  then show ?case by (cases i) auto
qed

lemma nth_le_sum_list: "i < length xs \<Longrightarrow> (f (xs ! i) :: nat) \<le> sum_list (map f xs)"
  by (induction xs arbitrary: i) (auto simp: nth_Cons split: nat.splits intro: trans_le_add2)

lemma uses_le_claims: "uses_conn g \<le> claims_conn g"
  by (cases g rule: claims_conn.cases) simp_all

lemma claims_le_slot: "claims_conn g \<le> holds_slot g"
  by (cases g rule: holds_slot.cases) simp_all

lemma sum_claims_le_slots:
  "sum_list (map claims_conn gs) \<le> sum_list (map holds_slot gs)"
  by (rule sum_list_mono) (simp add: claims_le_slot)

lemma sum_uses_le_claims:
  "sum_list (map uses_conn gs) \<le> sum_list (map claims_conn gs)"
  by (rule sum_list_mono) (simp add: uses_le_claims)

lemma goroutine_step_caps:
  "goroutine_step ev w g = Some (w', g') \<Longrightarrow>
   cap (sema (cpool w')) = cap (sema (cpool w)) \<and>
   cap (idleCons (cpool w')) = cap (idleCons (cpool w))"
  by (cases "(ev, w, g)" rule: goroutine_step.cases)
     (auto simp: select_def send_def recv_def after_Close_def conn_Close_def
           split: if_splits option.splits select_case.splits list.splits conn.splits prod.splits outcome.splits)


lemma goroutine_step_slots:
  "goroutine_step ev w g = Some (w', g') \<Longrightarrow>
   holds_slot g \<le> length (buf (sema (cpool w))) \<Longrightarrow>
   length (buf (sema (cpool w))) \<le> cap (sema (cpool w)) \<Longrightarrow>
   length (buf (sema (cpool w'))) + holds_slot g = length (buf (sema (cpool w))) + holds_slot g' \<and>
   length (buf (sema (cpool w'))) \<le> cap (sema (cpool w))"
  by (cases "(ev, w, g)" rule: goroutine_step.cases)
     (auto simp: select_def send_def recv_def after_Close_def conn_Close_def can_send_def
                 Execute_ready_def
           split: if_splits option.splits select_case.splits list.splits conn.splits prod.splits outcome.splits)

lemma goroutine_step_kind:
  "goroutine_step ev w g = Some (w', g') \<Longrightarrow> direct_call g' = direct_call g"
  by (cases "(ev, w, g)" rule: goroutine_step.cases)
     (auto split: if_splits option.splits select_case.splits list.splits prod.splits outcome.splits)

lemma goroutine_step_conns:
  "goroutine_step ev w g = Some (w', g') \<Longrightarrow> \<not> direct_call g \<Longrightarrow>
   claims_conn g' + length (buf (idleCons (cpool w'))) \<le>
     claims_conn g + length (buf (idleCons (cpool w))) \<or>
   buf (idleCons (cpool w')) = []"
  by (cases "(ev, w, g)" rule: goroutine_step.cases)
     (auto simp: select_def send_def recv_def after_Close_def conn_Close_def can_send_def can_recv_def
                 Get_ready_def
           split: if_splits option.splits select_case.splits list.splits conn.splits prod.splits outcome.splits)


lemma system_step_Some:
  assumes "system_step i ev s = Some s'"
  obtains w' g' where "i < length (goroutines s)"
    and "goroutine_step ev (world s) (goroutines s ! i) = Some (w', g')"
    and "world s' = w'" and "goroutines s' = (goroutines s)[i := g']"
  using assms by (auto simp: system_step_def split: if_splits option.splits)

lemma reachable_inv:
  assumes r: "reachable s0 s"
    and nd: "\<forall>g \<in> set (goroutines s). \<not> direct_call g"
    and g0: "goroutines s0 = []"
    and s0: "buf (sema (cpool (world s0))) = []"
    and i0: "buf (idleCons (cpool (world s0))) = []"
    and c1: "cap (sema (cpool (world s0))) = C"
    and c2: "cap (idleCons (cpool (world s0))) = C"
  shows "cap (sema (cpool (world s))) = C \<and> cap (idleCons (cpool (world s))) = C \<and>
         length (buf (sema (cpool (world s)))) = sum_list (map holds_slot (goroutines s)) \<and>
         length (buf (sema (cpool (world s)))) \<le> C \<and>
         sum_list (map claims_conn (goroutines s)) + length (buf (idleCons (cpool (world s)))) \<le> C"
  using r nd
proof (induction rule: reachable.induct)
  case start
  show ?case using g0 s0 i0 c1 c2 by simp
next
  case (call_Execute s ctx)
  then show ?case by simp
next
  case (call_Shutdown s)
  then show ?case by simp
next
  case (call_Get s ctx)
  then show ?case by simp
next
  case (call_Put s c)
  then show ?case by simp
next
  case (step s i ev s')
  from step.hyps(2) obtain w' g' where i: "i < length (goroutines s)"
    and gs: "goroutine_step ev (world s) (goroutines s ! i) = Some (w', g')"
    and w': "world s' = w'" and g': "goroutines s' = (goroutines s)[i := g']"
    by (rule system_step_Some)
  let ?g = "goroutines s ! i"
  have nds: "\<forall>g \<in> set (goroutines s). \<not> direct_call g"
  proof
    fix g assume "g \<in> set (goroutines s)"
    then obtain j where j: "j < length (goroutines s)" and gj: "goroutines s ! j = g"
      by (auto simp: in_set_conv_nth)
    from j have mem: "(goroutines s)[i := g'] ! j \<in> set (goroutines s')"
      unfolding g' by (intro nth_mem) simp
    show "\<not> direct_call g"
    proof (cases "j = i")
      case True
      with mem j have "g' \<in> set (goroutines s')" by simp
      with step.prems have "\<not> direct_call g'" by blast
      with goroutine_step_kind [OF gs] True gj show ?thesis by simp
    next
      case False
      with mem gj have "g \<in> set (goroutines s')" by simp
      with step.prems show ?thesis by blast
    qed
  qed
  have ndg: "\<not> direct_call ?g" using nds i by simp
  from step.IH [OF nds] have capS: "cap (sema (cpool (world s))) = C"
    and capI: "cap (idleCons (cpool (world s))) = C"
    and slots: "length (buf (sema (cpool (world s)))) = sum_list (map holds_slot (goroutines s))"
    and bound: "length (buf (sema (cpool (world s)))) \<le> C"
    and conns: "sum_list (map claims_conn (goroutines s)) + length (buf (idleCons (cpool (world s)))) \<le> C"
    by simp_all
  have le: "holds_slot ?g \<le> length (buf (sema (cpool (world s))))"
    using nth_le_sum_list [OF i, of holds_slot] slots by simp
  have caps: "cap (sema (cpool w')) = C \<and> cap (idleCons (cpool w')) = C"
    using goroutine_step_caps [OF gs] capS capI by simp
  have sl: "length (buf (sema (cpool w'))) + holds_slot ?g =
      length (buf (sema (cpool (world s)))) + holds_slot g'"
    and bd: "length (buf (sema (cpool w'))) \<le> C"
    using goroutine_step_slots [OF gs le] bound capS by simp_all
  have us: "sum_list (map holds_slot (goroutines s')) + holds_slot ?g =
      sum_list (map holds_slot (goroutines s)) + holds_slot g'"
    unfolding g' by (rule sum_list_update_nat [OF i])
  have uc: "sum_list (map claims_conn (goroutines s')) + claims_conn ?g =
      sum_list (map claims_conn (goroutines s)) + claims_conn g'"
    unfolding g' by (rule sum_list_update_nat [OF i])
  have slots': "length (buf (sema (cpool w'))) = sum_list (map holds_slot (goroutines s'))"
    using sl us slots by linarith
  have conns': "sum_list (map claims_conn (goroutines s')) + length (buf (idleCons (cpool w'))) \<le> C"
    using goroutine_step_conns [OF gs ndg]
  proof
    assume "claims_conn g' + length (buf (idleCons (cpool w'))) \<le>
      claims_conn ?g + length (buf (idleCons (cpool (world s))))"
    with uc conns show ?thesis by linarith
  next
    assume "buf (idleCons (cpool w')) = []"
    with sum_claims_le_slots [of "goroutines s'"] slots' bd show ?thesis by simp
  qed
  show ?case using caps slots' bd conns' by (simp add: w')
next
  case (ctx_cancel s c e cz)
  then show ?case by simp
next
  case (ctx_derive s c)
  then show ?case by simp
qed

lemma NewPool_Normal:
  "NewPool ctx capacity cs = Normal (cp, cs') \<Longrightarrow>
   0 \<le> capacity \<and> buf (sema cp) = [] \<and> buf (idleCons cp) = [] \<and>
   cap (sema cp) = nat capacity \<and> cap (idleCons cp) = nat capacity \<and> wg cp = 0 \<and>
   cp_ctx cp = length cs \<and> closed (idleCons cp) = False"
  by (auto simp: NewPool_def WithCancelCause_def make_chan_def split: if_splits)

text \<open>
  A run of a pool of capacity 1, made under context 0, with callers under context 1.  One
  goroutine goes through \<^verbatim>\<open>Execute\<close> up to \<^verbatim>\<open>fn(conn)\<close>, with a connection from the
  factory; a second one calls \<^verbatim>\<open>Execute\<close> and reaches the \<^verbatim>\<open>select\<close>; a third one calls
  \<^verbatim>\<open>Shutdown\<close>, cancels the pool's context and waits for the wait group.
\<close>

lemma NewPool_1:
  "NewPool 0 1 [Background :: nat cancelCtx, Background] =
     Normal (\<lparr>cp_ctx = 2, wg = 0, idleCons = \<lparr>buf = [], cap = 1, closed = False\<rparr>,
          sema = \<lparr>buf = [], cap = 1, closed = False\<rparr>\<rparr>,
       [Background :: nat cancelCtx, Background, \<lparr>parent = Some 0, err = None, cause = None\<rparr>])"
  by (simp add: NewPool_def WithCancelCause_def make_chan_def Err_def Cause_def Background_def)

lemma shutdown_while_waiting_run:
  "system_run
     [(0, quiet), (0, quiet), (0, quiet), (0, quiet), (0, quiet), (0, quiet),
        (1, quiet), (2, quiet), (2, quiet)]
     \<lparr>world = \<lparr>ctxs = [Background :: nat cancelCtx, Background, \<lparr>parent = Some 0, err = None, cause = None\<rparr>],
        cpool = \<lparr>cp_ctx = 2, wg = 0, idleCons = \<lparr>buf = [], cap = 1, closed = False\<rparr>,
          sema = \<lparr>buf = [], cap = 1, closed = False\<rparr>\<rparr>, dialed = 0, closedConns = []\<rparr>,
      goroutines = [InExecute 1 Execute_IsShutdown, InExecute 1 Execute_IsShutdown,
                    InShutdown Shutdown_IsShutdown]\<rparr> =
   Some
     \<lparr>world = \<lparr>ctxs = [Background :: nat cancelCtx, Background, \<lparr>parent = Some 0, err = Some Canceled, cause = Some Canceled\<rparr>],
        cpool = \<lparr>cp_ctx = 2, wg = 1, idleCons = \<lparr>buf = [], cap = 1, closed = False\<rparr>,
          sema = \<lparr>buf = [()], cap = 1, closed = False\<rparr>\<rparr>, dialed = 1, closedConns = []\<rparr>,
      goroutines = [InExecute 1 (Execute_fn (Conn 0)), InExecute 1 Execute_select,
                    InShutdown Shutdown_wgWait]\<rparr>"
  by (simp add: system_step_def select_def Execute_ready_def Get_ready_def ConnPool_IsShutdown_def
       Err_def Done_def Background_def can_send_def can_recv_def send_def cancel_def upt_rec
       quiet_def)

lemma shutdown_while_waiting_reachable:
  "reachable
     (new_system \<lparr>cp_ctx = 2, wg = 0, idleCons = \<lparr>buf = [], cap = 1, closed = False\<rparr>,
          sema = \<lparr>buf = [], cap = 1, closed = False\<rparr>\<rparr>
        [Background :: nat cancelCtx, Background, \<lparr>parent = Some 0, err = None, cause = None\<rparr>])
     \<lparr>world = \<lparr>ctxs = [Background :: nat cancelCtx, Background, \<lparr>parent = Some 0, err = Some Canceled, cause = Some Canceled\<rparr>],
        cpool = \<lparr>cp_ctx = 2, wg = 1, idleCons = \<lparr>buf = [], cap = 1, closed = False\<rparr>,
          sema = \<lparr>buf = [()], cap = 1, closed = False\<rparr>\<rparr>, dialed = 1, closedConns = []\<rparr>,
      goroutines = [InExecute 1 (Execute_fn (Conn 0)), InExecute 1 Execute_select,
                    InShutdown Shutdown_wgWait]\<rparr>"
proof -
  let ?s0 = "new_system \<lparr>cp_ctx = 2, wg = 0, idleCons = \<lparr>buf = [], cap = 1, closed = False\<rparr>,
          sema = \<lparr>buf = [], cap = 1, closed = False\<rparr>\<rparr>
        [Background :: nat cancelCtx, Background, \<lparr>parent = Some 0, err = None, cause = None\<rparr>]"
  have "reachable ?s0 ?s0" by (rule reachable.start)
  then have "reachable ?s0 (?s0\<lparr>goroutines := goroutines ?s0 @ [InExecute 1 Execute_IsShutdown]\<rparr>)"
    by (rule reachable.call_Execute)
  then have "reachable ?s0 (?s0\<lparr>goroutines := [InExecute 1 Execute_IsShutdown]\<rparr>)"
    by (simp add: new_system_def)
  then have "reachable ?s0 (?s0\<lparr>goroutines := [InExecute 1 Execute_IsShutdown]\<rparr>
      \<lparr>goroutines := goroutines (?s0\<lparr>goroutines := [InExecute 1 Execute_IsShutdown]\<rparr>) @
         [InExecute 1 Execute_IsShutdown]\<rparr>)"
    by (rule reachable.call_Execute)
  then have "reachable ?s0
      (?s0\<lparr>goroutines := [InExecute 1 Execute_IsShutdown, InExecute 1 Execute_IsShutdown]\<rparr>)"
    by (simp add: new_system_def)
  then have "reachable ?s0
      (?s0\<lparr>goroutines := [InExecute 1 Execute_IsShutdown, InExecute 1 Execute_IsShutdown]\<rparr>
       \<lparr>goroutines := goroutines
          (?s0\<lparr>goroutines := [InExecute 1 Execute_IsShutdown, InExecute 1 Execute_IsShutdown]\<rparr>) @
          [InShutdown Shutdown_IsShutdown]\<rparr>)"
    by (rule reachable.call_Shutdown)
  then have "reachable ?s0
     \<lparr>world = \<lparr>ctxs = [Background :: nat cancelCtx, Background, \<lparr>parent = Some 0, err = None, cause = None\<rparr>],
        cpool = \<lparr>cp_ctx = 2, wg = 0, idleCons = \<lparr>buf = [], cap = 1, closed = False\<rparr>,
          sema = \<lparr>buf = [], cap = 1, closed = False\<rparr>\<rparr>, dialed = 0, closedConns = []\<rparr>,
      goroutines = [InExecute 1 Execute_IsShutdown, InExecute 1 Execute_IsShutdown,
                    InShutdown Shutdown_IsShutdown]\<rparr>"
    by (simp add: new_system_def)
  then show ?thesis
    using shutdown_while_waiting_run by (rule system_run_reachable)
qed




text \<open>
  A second run of the pool of capacity 1, in which \<^verbatim>\<open>Get\<close> and \<^verbatim>\<open>Put\<close> are called from
  outside \<^verbatim>\<open>Execute\<close>.  One goroutine goes through \<^verbatim>\<open>Execute\<close> up to \<^verbatim>\<open>fn(conn)\<close> and holds
  the only admission slot, with connection 0 from the factory.  A second goroutine calls
  \<^verbatim>\<open>Get\<close> directly: no slot is asked for, the idle cache is empty, and the factory makes
  connection 1.  A third goroutine then hands connection 1 to \<^verbatim>\<open>Put\<close>, which finds room in
  the idle cache.
\<close>

lemma direct_Get_run:
  "system_run
     [(0, quiet), (0, quiet), (0, quiet), (0, quiet), (0, quiet), (0, quiet),
        (1, quiet), (1, quiet), (1, quiet)]
     \<lparr>world = \<lparr>ctxs = [Background :: nat cancelCtx, Background, \<lparr>parent = Some 0, err = None, cause = None\<rparr>],
        cpool = \<lparr>cp_ctx = 2, wg = 0, idleCons = \<lparr>buf = [], cap = 1, closed = False\<rparr>,
          sema = \<lparr>buf = [], cap = 1, closed = False\<rparr>\<rparr>, dialed = 0, closedConns = []\<rparr>,
      goroutines = [InExecute 1 Execute_IsShutdown, InGet 1 Direct_Get_IsShutdown]\<rparr> =
   Some
     \<lparr>world = \<lparr>ctxs = [Background :: nat cancelCtx, Background, \<lparr>parent = Some 0, err = None, cause = None\<rparr>],
        cpool = \<lparr>cp_ctx = 2, wg = 1, idleCons = \<lparr>buf = [], cap = 1, closed = False\<rparr>,
          sema = \<lparr>buf = [()], cap = 1, closed = False\<rparr>\<rparr>, dialed = 2, closedConns = []\<rparr>,
      goroutines = [InExecute 1 (Execute_fn (Conn 0)), InGet 1 (Direct_Get_returned (Conn 1) None)]\<rparr>"
  by (simp add: system_step_def select_def Execute_ready_def Get_ready_def ConnPool_IsShutdown_def
       Err_def Done_def Background_def can_send_def can_recv_def send_def upt_rec quiet_def)

lemma direct_Put_run:
  "system_run [(2, quiet), (2, quiet)]
     \<lparr>world = \<lparr>ctxs = [Background :: nat cancelCtx, Background, \<lparr>parent = Some 0, err = None, cause = None\<rparr>],
        cpool = \<lparr>cp_ctx = 2, wg = 1, idleCons = \<lparr>buf = [], cap = 1, closed = False\<rparr>,
          sema = \<lparr>buf = [()], cap = 1, closed = False\<rparr>\<rparr>, dialed = 2, closedConns = []\<rparr>,
      goroutines = [InExecute 1 (Execute_fn (Conn 0)), InGet 1 (Direct_Get_returned (Conn 1) None),
                    InPut (Conn 1) Direct_Put_IsShutdown]\<rparr> =
   Some
     \<lparr>world = \<lparr>ctxs = [Background :: nat cancelCtx, Background, \<lparr>parent = Some 0, err = None, cause = None\<rparr>],
        cpool = \<lparr>cp_ctx = 2, wg = 1, idleCons = \<lparr>buf = [Conn 1], cap = 1, closed = False\<rparr>,
          sema = \<lparr>buf = [()], cap = 1, closed = False\<rparr>\<rparr>, dialed = 2, closedConns = []\<rparr>,
      goroutines = [InExecute 1 (Execute_fn (Conn 0)), InGet 1 (Direct_Get_returned (Conn 1) None),
                    InPut (Conn 1) (Direct_Put_returned (Normal ()))]\<rparr>"
  by (simp add: system_step_def select_def Execute_ready_def Get_ready_def ConnPool_IsShutdown_def
       Err_def Done_def Background_def can_send_def can_recv_def send_def upt_rec quiet_def)

lemma direct_Put_reachable:
  "reachable
     (new_system \<lparr>cp_ctx = 2, wg = 0, idleCons = \<lparr>buf = [], cap = 1, closed = False\<rparr>,
          sema = \<lparr>buf = [], cap = 1, closed = False\<rparr>\<rparr>
        [Background :: nat cancelCtx, Background, \<lparr>parent = Some 0, err = None, cause = None\<rparr>])
     \<lparr>world = \<lparr>ctxs = [Background :: nat cancelCtx, Background, \<lparr>parent = Some 0, err = None, cause = None\<rparr>],
        cpool = \<lparr>cp_ctx = 2, wg = 1, idleCons = \<lparr>buf = [Conn 1], cap = 1, closed = False\<rparr>,
          sema = \<lparr>buf = [()], cap = 1, closed = False\<rparr>\<rparr>, dialed = 2, closedConns = []\<rparr>,
      goroutines = [InExecute 1 (Execute_fn (Conn 0)), InGet 1 (Direct_Get_returned (Conn 1) None),
                    InPut (Conn 1) (Direct_Put_returned (Normal ()))]\<rparr>"
proof -
  let ?s0 = "new_system \<lparr>cp_ctx = 2, wg = 0, idleCons = \<lparr>buf = [], cap = 1, closed = False\<rparr>,
          sema = \<lparr>buf = [], cap = 1, closed = False\<rparr>\<rparr>
        [Background :: nat cancelCtx, Background, \<lparr>parent = Some 0, err = None, cause = None\<rparr>]"
  have "reachable ?s0 ?s0" by (rule reachable.start)
  then have "reachable ?s0 (?s0\<lparr>goroutines := goroutines ?s0 @ [InExecute 1 Execute_IsShutdown]\<rparr>)"
    by (rule reachable.call_Execute)
  then have "reachable ?s0 (?s0\<lparr>goroutines := [InExecute 1 Execute_IsShutdown]\<rparr>)"
    by (simp add: new_system_def)
  then have "reachable ?s0 (?s0\<lparr>goroutines := [InExecute 1 Execute_IsShutdown]\<rparr>
      \<lparr>goroutines := goroutines (?s0\<lparr>goroutines := [InExecute 1 Execute_IsShutdown]\<rparr>) @
         [InGet 1 Direct_Get_IsShutdown]\<rparr>)"
    by (rule reachable.call_Get)
  then have "reachable ?s0
     \<lparr>world = \<lparr>ctxs = [Background :: nat cancelCtx, Background, \<lparr>parent = Some 0, err = None, cause = None\<rparr>],
        cpool = \<lparr>cp_ctx = 2, wg = 0, idleCons = \<lparr>buf = [], cap = 1, closed = False\<rparr>,
          sema = \<lparr>buf = [], cap = 1, closed = False\<rparr>\<rparr>, dialed = 0, closedConns = []\<rparr>,
      goroutines = [InExecute 1 Execute_IsShutdown, InGet 1 Direct_Get_IsShutdown]\<rparr>"
    by (simp add: new_system_def)
  then have a: "reachable ?s0
     \<lparr>world = \<lparr>ctxs = [Background :: nat cancelCtx, Background, \<lparr>parent = Some 0, err = None, cause = None\<rparr>],
        cpool = \<lparr>cp_ctx = 2, wg = 1, idleCons = \<lparr>buf = [], cap = 1, closed = False\<rparr>,
          sema = \<lparr>buf = [()], cap = 1, closed = False\<rparr>\<rparr>, dialed = 2, closedConns = []\<rparr>,
      goroutines = [InExecute 1 (Execute_fn (Conn 0)), InGet 1 (Direct_Get_returned (Conn 1) None)]\<rparr>"
    using direct_Get_run by (rule system_run_reachable)
  let ?a = "\<lparr>world = \<lparr>ctxs = [Background :: nat cancelCtx, Background, \<lparr>parent = Some 0, err = None, cause = None\<rparr>],
        cpool = \<lparr>cp_ctx = 2, wg = 1, idleCons = \<lparr>buf = [], cap = 1, closed = False\<rparr>,
          sema = \<lparr>buf = [()], cap = 1, closed = False\<rparr>\<rparr>, dialed = 2, closedConns = []\<rparr>,
      goroutines = [InExecute 1 (Execute_fn (Conn 0)), InGet 1 (Direct_Get_returned (Conn 1) None)]\<rparr>"
  from a have "reachable ?s0 (?a\<lparr>goroutines := goroutines ?a @ [InPut (Conn 1) Direct_Put_IsShutdown]\<rparr>)"
    by (rule reachable.call_Put)
  then have "reachable ?s0
     \<lparr>world = \<lparr>ctxs = [Background :: nat cancelCtx, Background, \<lparr>parent = Some 0, err = None, cause = None\<rparr>],
        cpool = \<lparr>cp_ctx = 2, wg = 1, idleCons = \<lparr>buf = [], cap = 1, closed = False\<rparr>,
          sema = \<lparr>buf = [()], cap = 1, closed = False\<rparr>\<rparr>, dialed = 2, closedConns = []\<rparr>,
      goroutines = [InExecute 1 (Execute_fn (Conn 0)), InGet 1 (Direct_Get_returned (Conn 1) None),
                    InPut (Conn 1) Direct_Put_IsShutdown]\<rparr>"
    by simp
  then show ?thesis
    using direct_Put_run by (rule system_run_reachable)
qed

text \<open>
  Counterexample to C6 as stated.  \<^verbatim>\<open>Get\<close> and \<^verbatim>\<open>Put\<close> are exported and take no admission
  slot.  At the end of the run above, on a pool of capacity 1, one connection is in use by
  an \<^verbatim>\<open>Execute\<close> caller and one connection is in the idle cache: two connections, against
  a capacity of one.  The steps of \<^verbatim>\<open>Get\<close> and \<^verbatim>\<open>Put\<close> taken outside \<^verbatim>\<open>Execute\<close> do not
  preserve the bound.
\<close>

theorem direct_Put_exceeds_capacity_counterexample:
  "NewPool 0 1 [Background :: nat cancelCtx, Background] =
     Normal (\<lparr>cp_ctx = 2, wg = 0, idleCons = \<lparr>buf = [], cap = 1, closed = False\<rparr>,
          sema = \<lparr>buf = [], cap = 1, closed = False\<rparr>\<rparr>,
       [Background :: nat cancelCtx, Background, \<lparr>parent = Some 0, err = None, cause = None\<rparr>]) \<and>
   reachable
     (new_system \<lparr>cp_ctx = 2, wg = 0, idleCons = \<lparr>buf = [], cap = 1, closed = False\<rparr>,
          sema = \<lparr>buf = [], cap = 1, closed = False\<rparr>\<rparr>
        [Background :: nat cancelCtx, Background, \<lparr>parent = Some 0, err = None, cause = None\<rparr>])
     \<lparr>world = \<lparr>ctxs = [Background :: nat cancelCtx, Background, \<lparr>parent = Some 0, err = None, cause = None\<rparr>],
        cpool = \<lparr>cp_ctx = 2, wg = 1, idleCons = \<lparr>buf = [Conn 1], cap = 1, closed = False\<rparr>,
          sema = \<lparr>buf = [()], cap = 1, closed = False\<rparr>\<rparr>, dialed = 2, closedConns = []\<rparr>,
      goroutines = [InExecute 1 (Execute_fn (Conn 0)), InGet 1 (Direct_Get_returned (Conn 1) None),
                    InPut (Conn 1) (Direct_Put_returned (Normal ()))]\<rparr> \<and>
   in_use
     \<lparr>world = \<lparr>ctxs = [Background :: nat cancelCtx, Background, \<lparr>parent = Some 0, err = None, cause = None\<rparr>],
        cpool = \<lparr>cp_ctx = 2, wg = 1, idleCons = \<lparr>buf = [Conn 1], cap = 1, closed = False\<rparr>,
          sema = \<lparr>buf = [()], cap = 1, closed = False\<rparr>\<rparr>, dialed = 2, closedConns = []\<rparr>,
      goroutines = [InExecute 1 (Execute_fn (Conn 0)), InGet 1 (Direct_Get_returned (Conn 1) None),
                    InPut (Conn 1) (Direct_Put_returned (Normal ()))]\<rparr> = 1 \<and>
   idle
     \<lparr>world = \<lparr>ctxs = [Background :: nat cancelCtx, Background, \<lparr>parent = Some 0, err = None, cause = None\<rparr>],
        cpool = \<lparr>cp_ctx = 2, wg = 1, idleCons = \<lparr>buf = [Conn 1], cap = 1, closed = False\<rparr>,
          sema = \<lparr>buf = [()], cap = 1, closed = False\<rparr>\<rparr>, dialed = 2, closedConns = []\<rparr>,
      goroutines = [InExecute 1 (Execute_fn (Conn 0)), InGet 1 (Direct_Get_returned (Conn 1) None),
                    InPut (Conn 1) (Direct_Put_returned (Normal ()))]\<rparr> = 1 \<and>
   \<not> in_use
     \<lparr>world = \<lparr>ctxs = [Background :: nat cancelCtx, Background, \<lparr>parent = Some 0, err = None, cause = None\<rparr>],
        cpool = \<lparr>cp_ctx = 2, wg = 1, idleCons = \<lparr>buf = [Conn 1], cap = 1, closed = False\<rparr>,
          sema = \<lparr>buf = [()], cap = 1, closed = False\<rparr>\<rparr>, dialed = 2, closedConns = []\<rparr>,
      goroutines = [InExecute 1 (Execute_fn (Conn 0)), InGet 1 (Direct_Get_returned (Conn 1) None),
                    InPut (Conn 1) (Direct_Put_returned (Normal ()))]\<rparr> +
   idle
     \<lparr>world = \<lparr>ctxs = [Background :: nat cancelCtx, Background, \<lparr>parent = Some 0, err = None, cause = None\<rparr>],
        cpool = \<lparr>cp_ctx = 2, wg = 1, idleCons = \<lparr>buf = [Conn 1], cap = 1, closed = False\<rparr>,
          sema = \<lparr>buf = [()], cap = 1, closed = False\<rparr>\<rparr>, dialed = 2, closedConns = []\<rparr>,
      goroutines = [InExecute 1 (Execute_fn (Conn 0)), InGet 1 (Direct_Get_returned (Conn 1) None),
                    InPut (Conn 1) (Direct_Put_returned (Normal ()))]\<rparr> \<le> nat 1"
  using NewPool_1 direct_Put_reachable by (simp add: in_use_def idle_def)

text \<open>
  Claim C6, amended.  For a pool made by \<^verbatim>\<open>NewPool\<close> with capacity \<open>C\<close>, in every reachable
  state in which all goroutines entered through \<^verbatim>\<open>Execute\<close> or \<^verbatim>\<open>Shutdown\<close> (so that \<^verbatim>\<open>Get\<close>
  and \<^verbatim>\<open>Put\<close> run only inside \<^verbatim>\<open>Execute\<close>), whatever the interleaving of their steps and
  whatever contexts are derived and cancelled, the number of connections in use by
  \<^verbatim>\<open>Execute\<close> callers plus the number of connections in the idle cache is at most \<open>C\<close>.
\<close>

theorem ConnPool_capacity_bound:
  assumes "NewPool ctx capacity cs = Normal (cp, cs')"
    and "reachable (new_system cp cs') s"
    and "\<forall>g \<in> set (goroutines s). \<not> direct_call g"
  shows "in_use s + idle s \<le> nat capacity"
proof -
  have "sum_list (map claims_conn (goroutines s)) +
      length (buf (idleCons (cpool (world s)))) \<le> nat capacity"
    using reachable_inv [OF assms(2) assms(3), of "nat capacity"] NewPool_Normal [OF assms(1)]
    by (simp add: new_system_def)
  with sum_uses_le_claims [of "goroutines s"] show ?thesis
    by (simp add: in_use_def idle_def)
qed

text \<open>
  Witness for C6: the pool of capacity 1 at the end of the first run, where every goroutine
  entered through \<^verbatim>\<open>Execute\<close> or \<^verbatim>\<open>Shutdown\<close>, with one connection in use and none idle.
\<close>

theorem ConnPool_capacity_bound_witness:
  "NewPool 0 1 [Background :: nat cancelCtx, Background] =
     Normal (\<lparr>cp_ctx = 2, wg = 0, idleCons = \<lparr>buf = [], cap = 1, closed = False\<rparr>,
          sema = \<lparr>buf = [], cap = 1, closed = False\<rparr>\<rparr>,
       [Background :: nat cancelCtx, Background, \<lparr>parent = Some 0, err = None, cause = None\<rparr>]) \<and>
   reachable
     (new_system \<lparr>cp_ctx = 2, wg = 0, idleCons = \<lparr>buf = [], cap = 1, closed = False\<rparr>,
          sema = \<lparr>buf = [], cap = 1, closed = False\<rparr>\<rparr>
        [Background :: nat cancelCtx, Background, \<lparr>parent = Some 0, err = None, cause = None\<rparr>])
     \<lparr>world = \<lparr>ctxs = [Background :: nat cancelCtx, Background, \<lparr>parent = Some 0, err = Some Canceled, cause = Some Canceled\<rparr>],
        cpool = \<lparr>cp_ctx = 2, wg = 1, idleCons = \<lparr>buf = [], cap = 1, closed = False\<rparr>,
          sema = \<lparr>buf = [()], cap = 1, closed = False\<rparr>\<rparr>, dialed = 1, closedConns = []\<rparr>,
      goroutines = [InExecute 1 (Execute_fn (Conn 0)), InExecute 1 Execute_select,
                    InShutdown Shutdown_wgWait]\<rparr> \<and>
   map direct_call
     [InExecute 1 (Execute_fn (Conn 0)) :: nat goroutine, InExecute 1 Execute_select,
      InShutdown Shutdown_wgWait] = [False, False, False] \<and>
   in_use
     \<lparr>world = \<lparr>ctxs = [Background :: nat cancelCtx, Background, \<lparr>parent = Some 0, err = Some Canceled, cause = Some Canceled\<rparr>],
        cpool = \<lparr>cp_ctx = 2, wg = 1, idleCons = \<lparr>buf = [], cap = 1, closed = False\<rparr>,
          sema = \<lparr>buf = [()], cap = 1, closed = False\<rparr>\<rparr>, dialed = 1, closedConns = []\<rparr>,
      goroutines = [InExecute 1 (Execute_fn (Conn 0)), InExecute 1 Execute_select,
                    InShutdown Shutdown_wgWait]\<rparr> = 1 \<and>
   in_use
     \<lparr>world = \<lparr>ctxs = [Background :: nat cancelCtx, Background, \<lparr>parent = Some 0, err = Some Canceled, cause = Some Canceled\<rparr>],
        cpool = \<lparr>cp_ctx = 2, wg = 1, idleCons = \<lparr>buf = [], cap = 1, closed = False\<rparr>,
          sema = \<lparr>buf = [()], cap = 1, closed = False\<rparr>\<rparr>, dialed = 1, closedConns = []\<rparr>,
      goroutines = [InExecute 1 (Execute_fn (Conn 0)), InExecute 1 Execute_select,
                    InShutdown Shutdown_wgWait]\<rparr> +
   idle
     \<lparr>world = \<lparr>ctxs = [Background :: nat cancelCtx, Background, \<lparr>parent = Some 0, err = Some Canceled, cause = Some Canceled\<rparr>],
        cpool = \<lparr>cp_ctx = 2, wg = 1, idleCons = \<lparr>buf = [], cap = 1, closed = False\<rparr>,
          sema = \<lparr>buf = [()], cap = 1, closed = False\<rparr>\<rparr>, dialed = 1, closedConns = []\<rparr>,
      goroutines = [InExecute 1 (Execute_fn (Conn 0)), InExecute 1 Execute_select,
                    InShutdown Shutdown_wgWait]\<rparr> \<le> nat 1"
  using ConnPool_capacity_bound [OF NewPool_1 shutdown_while_waiting_reachable]
    NewPool_1 shutdown_while_waiting_reachable
  by (simp add: in_use_def)

end
